theory Spec2Isabelle
  imports Main "HOL-Library.AList" "HOL-Library.Sublist" "HOL-Library.Multiset"
begin

section \<open>Data model (shared/schema.ts)\<close>

text \<open>
  The three tables of the schema. A nullable column is an \<open>option\<close> (\<open>None\<close> is
  \<open>null\<close>); a timestamp is the integer that \<open>getTime()\<close> returns. Counters are JavaScript
  numbers; they are modelled as unbounded integers (the model does not cover counters
  beyond $2^{53}$, where a double stops counting). Strings are lists of characters; case
  folding is modelled on the ASCII letters.
\<close>

record Article =
  article_id :: string
  title :: string
  content :: string
  excerpt :: string
  author :: string
  authorTitle :: string
  authorImage :: "string option"
  category :: string
  tags :: "string list option"
  imageUrl :: "string option"
  published :: "bool option"
  featured :: "bool option"
  views :: "int option"
  likes :: "int option"
  createdAt :: int
  updatedAt :: int

record Comment =
  comment_id :: string
  articleId :: string
  comment_author :: string
  email :: string
  comment_content :: string
  comment_createdAt :: int

record Category =
  category_id :: string
  name :: string
  slug :: string
  description :: "string option"
  color :: string

text \<open>\<open>SearchParams\<close>: every field optional (\<open>None\<close> is \<open>undefined\<close>).\<close>

record SearchParams =
  query :: "string option"
  sp_category :: "string option"
  sp_tags :: "string list option"
  sp_published :: "bool option"
  sp_featured :: "bool option"

section \<open>JavaScript string helpers\<close>

definition toLowerChar :: "char \<Rightarrow> char" where
  "toLowerChar c =
     (let n = (of_char c :: nat) in if 65 \<le> n \<and> n \<le> 90 then char_of (n + 32) else c)"

definition toLowerCase :: "string \<Rightarrow> string" where
  "toLowerCase s = map toLowerChar s"

text \<open>\<open>s.includes(q)\<close>: \<open>q\<close> occurs in \<open>s\<close> as a contiguous substring.\<close>

fun str_includes :: "string \<Rightarrow> string \<Rightarrow> bool" where
  "str_includes [] q = (q = [])"
| "str_includes (c # cs) q = (prefix q (c # cs) \<or> str_includes cs q)"

text \<open>Truthiness of an optional string: defined and not empty.\<close>

definition truthy :: "string option \<Rightarrow> bool" where
  "truthy v = (case v of None \<Rightarrow> False | Some s \<Rightarrow> s \<noteq> [])"

section \<open>MemStorage (server/storage.ts)\<close>

text \<open>
  A JavaScript \<open>Map\<close> keeps its keys in insertion order: \<open>set\<close> on a key already
  present replaces the value in place, \<open>set\<close> on a new key appends, \<open>delete\<close> removes
  the entry. That is an association list with \<open>AList.update\<close>, \<open>AList.delete\<close> and
  \<open>map_of\<close>.

  The values of the article map are objects, and \<open>incrementViews\<close> and \<open>toggleLike\<close>
  assign to a field of the object they read from the map. The model therefore keeps the
  article objects in an explicit heap: \<open>objects\<close> is the list of all article objects
  ever allocated, a reference is an index into it, and the map binds an id to a
  reference. Comments and categories are never assigned to after they are built, so
  their maps hold the values themselves.
\<close>

type_synonym ref = nat

record MemStorage =
  articles :: "(string \<times> ref) list"
  objects :: "Article list"
  comments :: "(string \<times> Comment) list"
  categories :: "(string \<times> Category) list"

text \<open>\<open>Array.from(this.articles.values())\<close>, each object read as it is now.\<close>

definition article_values :: "MemStorage \<Rightarrow> Article list" where
  "article_values st = map (\<lambda>(k, r). objects st ! r) (articles st)"

text \<open>
  \<open>xs.sort((a, b) => b.createdAt.getTime() - a.createdAt.getTime())\<close>: the sort of
  the language is stable, so the result is the stable sort on the negated timestamp.
\<close>

definition sort_newest_first :: "Article list \<Rightarrow> Article list" where
  "sort_newest_first xs = sort_key (\<lambda>a. - createdAt a) xs"

definition matches_query :: "string \<Rightarrow> Article \<Rightarrow> bool" where
  "matches_query q article =
     (str_includes (toLowerCase (title article)) q \<or>
      str_includes (toLowerCase (content article)) q \<or>
      str_includes (toLowerCase (author article)) q)"

definition filter_articles :: "SearchParams \<Rightarrow> Article list \<Rightarrow> Article list" where
  "filter_articles params as0 =
     (let as1 = (if truthy (query params)
                 then filter (matches_query (toLowerCase (the (query params)))) as0
                 else as0);
          as2 = (if truthy (sp_category params)
                 then filter (\<lambda>article. toLowerCase (category article) =
                                          toLowerCase (the (sp_category params))) as1
                 else as1);
          as3 = (if sp_published params \<noteq> None
                 then filter (\<lambda>article. published article = sp_published params) as2
                 else as2);
          as4 = (if sp_featured params \<noteq> None
                 then filter (\<lambda>article. featured article = sp_featured params) as3
                 else as3)
      in as4)"

text \<open>
  \<open>getArticles(params?)\<close>. The argument itself is optional (the sitemap route passes
  none), hence \<open>SearchParams option\<close>. The result is a fresh array of the stored
  objects; nothing is assigned to between the call and the serialisation of the
  result, so the model returns the objects' values.
\<close>

definition getArticles :: "MemStorage \<Rightarrow> SearchParams option \<Rightarrow> Article list" where
  "getArticles st params =
     sort_newest_first
       (case params of None \<Rightarrow> article_values st
        | Some p \<Rightarrow> filter_articles p (article_values st))"

text \<open>
  The insert types. \<open>InsertArticle\<close> is what \<open>insertArticleSchema\<close> accepts: the
  columns of the table without \<open>id\<close>, \<open>views\<close>, \<open>likes\<close>, \<open>createdAt\<close> and
  \<open>updatedAt\<close>. An optional nullable field has three states: \<open>None\<close> (the key is
  absent, \<open>undefined\<close>), \<open>Some None\<close> (\<open>null\<close>) and \<open>Some (Some v)\<close>.
  \<open>ArticleUpdates\<close> is \<open>Partial<InsertArticle>\<close>: every key may be absent.
\<close>

record InsertArticle =
  ins_title :: string
  ins_content :: string
  ins_excerpt :: string
  ins_author :: string
  ins_authorTitle :: string
  ins_authorImage :: "string option option"
  ins_category :: string
  ins_tags :: "string list option option"
  ins_imageUrl :: "string option option"
  ins_published :: "bool option option"
  ins_featured :: "bool option option"

record ArticleUpdates =
  upd_title :: "string option"
  upd_content :: "string option"
  upd_excerpt :: "string option"
  upd_author :: "string option"
  upd_authorTitle :: "string option"
  upd_authorImage :: "string option option"
  upd_category :: "string option"
  upd_tags :: "string list option option"
  upd_imageUrl :: "string option option"
  upd_published :: "bool option option"
  upd_featured :: "bool option option"

record InsertComment =
  ins_articleId :: string
  ins_comment_author :: string
  ins_email :: string
  ins_comment_content :: string

record InsertCategory =
  ins_name :: string
  ins_slug :: string
  ins_description :: "string option option"
  ins_color :: string

text \<open>\<open>v || null\<close> on an optional nullable string: the empty string is falsy too.\<close>

definition or_null :: "string option option \<Rightarrow> string option" where
  "or_null v = (case v of Some (Some s) \<Rightarrow> if s = [] then None else Some s | _ \<Rightarrow> None)"

text \<open>\<open>v || []\<close> on an optional nullable array: every array is truthy.\<close>

definition or_empty :: "string list option option \<Rightarrow> string list" where
  "or_empty v = (case v of Some (Some xs) \<Rightarrow> xs | _ \<Rightarrow> [])"

text \<open>\<open>n || 0\<close> on a nullable number.\<close>

definition or_zero :: "int option \<Rightarrow> int" where
  "or_zero v = (case v of None \<Rightarrow> 0 | Some n \<Rightarrow> n)"

text \<open>
  A key copied by an object spread into a nullable column: an absent key and \<open>null\<close>
  both read as "no value" everywhere the store looks at the field.
\<close>

definition spread_nullable :: "'a option option \<Rightarrow> 'a option" where
  "spread_nullable v = (case v of Some (Some x) \<Rightarrow> Some x | _ \<Rightarrow> None)"

definition getArticle :: "MemStorage \<Rightarrow> string \<Rightarrow> ref option" where
  "getArticle st i = map_of (articles st) i"

text \<open>
  \<open>createArticle\<close>: \<open>uuid\<close> is the value of \<open>randomUUID()\<close> and \<open>now\<close> that of
  \<open>new Date()\<close>. The result is the new state and the reference of the object that was
  built, stored and returned.
\<close>

definition createArticle ::
  "MemStorage \<Rightarrow> string \<Rightarrow> int \<Rightarrow> InsertArticle \<Rightarrow> MemStorage \<times> ref" where
  "createArticle st uuid now insertArticle =
     (let article = \<lparr> article_id = uuid,
                       title = ins_title insertArticle,
                       content = ins_content insertArticle,
                       excerpt = ins_excerpt insertArticle,
                       author = ins_author insertArticle,
                       authorTitle = ins_authorTitle insertArticle,
                       authorImage = or_null (ins_authorImage insertArticle),
                       category = ins_category insertArticle,
                       tags = Some (or_empty (ins_tags insertArticle)),
                       imageUrl = or_null (ins_imageUrl insertArticle),
                       published = spread_nullable (ins_published insertArticle),
                       featured = spread_nullable (ins_featured insertArticle),
                       views = Some 0,
                       likes = Some 0,
                       createdAt = now,
                       updatedAt = now \<rparr>;
          r = length (objects st)
      in (st\<lparr> objects := objects st @ [article],
               articles := AList.update uuid r (articles st) \<rparr>, r))"

text \<open>\<open>{...article, ...updates}\<close>: a key present in \<open>updates\<close> overrides the field.\<close>

definition override :: "'a \<Rightarrow> 'a option \<Rightarrow> 'a" where
  "override old new = (case new of None \<Rightarrow> old | Some v \<Rightarrow> v)"

definition spread_updates :: "Article \<Rightarrow> ArticleUpdates \<Rightarrow> Article" where
  "spread_updates article updates =
     article\<lparr> title := override (title article) (upd_title updates),
              content := override (content article) (upd_content updates),
              excerpt := override (excerpt article) (upd_excerpt updates),
              author := override (author article) (upd_author updates),
              authorTitle := override (authorTitle article) (upd_authorTitle updates),
              authorImage := override (authorImage article) (upd_authorImage updates),
              category := override (category article) (upd_category updates),
              tags := override (tags article) (upd_tags updates),
              imageUrl := override (imageUrl article) (upd_imageUrl updates),
              published := override (published article) (upd_published updates),
              featured := override (featured article) (upd_featured updates) \<rparr>"

text \<open>\<open>updateArticle\<close> builds a new object and binds the id to it.\<close>

definition updateArticle ::
  "MemStorage \<Rightarrow> int \<Rightarrow> string \<Rightarrow> ArticleUpdates \<Rightarrow> MemStorage \<times> ref option" where
  "updateArticle st now i updates =
     (case map_of (articles st) i of
        None \<Rightarrow> (st, None)
      | Some r \<Rightarrow>
          (let updated = (spread_updates (objects st ! r) updates)\<lparr> updatedAt := now \<rparr>;
               r' = length (objects st)
           in (st\<lparr> objects := objects st @ [updated],
                    articles := AList.update i r' (articles st) \<rparr>, Some r')))"

text \<open>\<open>Map.delete\<close> answers whether the key was there.\<close>

definition deleteArticle :: "MemStorage \<Rightarrow> string \<Rightarrow> MemStorage \<times> bool" where
  "deleteArticle st i =
     (st\<lparr> articles := AList.delete i (articles st) \<rparr>, map_of (articles st) i \<noteq> None)"

text \<open>
  \<open>incrementViews\<close> and \<open>toggleLike\<close> assign to the stored object itself and then
  \<open>set\<close> the id to the same object.
\<close>

definition incrementViews :: "MemStorage \<Rightarrow> string \<Rightarrow> MemStorage" where
  "incrementViews st i =
     (case map_of (articles st) i of
        None \<Rightarrow> st
      | Some r \<Rightarrow>
          st\<lparr> objects := (objects st)
                  [r := (objects st ! r)\<lparr> views := Some (or_zero (views (objects st ! r)) + 1) \<rparr>],
              articles := AList.update i r (articles st) \<rparr>)"

definition toggleLike :: "MemStorage \<Rightarrow> string \<Rightarrow> MemStorage \<times> ref option" where
  "toggleLike st i =
     (case map_of (articles st) i of
        None \<Rightarrow> (st, None)
      | Some r \<Rightarrow>
          (st\<lparr> objects := (objects st)
                  [r := (objects st ! r)\<lparr> likes := Some (or_zero (likes (objects st ! r)) + 1) \<rparr>],
               articles := AList.update i r (articles st) \<rparr>, Some r))"

definition getCommentsByArticleId :: "MemStorage \<Rightarrow> string \<Rightarrow> Comment list" where
  "getCommentsByArticleId st aid =
     sort_key (\<lambda>c. - comment_createdAt c)
       (filter (\<lambda>comment. articleId comment = aid) (map snd (comments st)))"

definition createComment ::
  "MemStorage \<Rightarrow> string \<Rightarrow> int \<Rightarrow> InsertComment \<Rightarrow> MemStorage \<times> Comment" where
  "createComment st uuid now insertComment =
     (let comment = \<lparr> comment_id = uuid,
                       articleId = ins_articleId insertComment,
                       comment_author = ins_comment_author insertComment,
                       email = ins_email insertComment,
                       comment_content = ins_comment_content insertComment,
                       comment_createdAt = now \<rparr>
      in (st\<lparr> comments := AList.update uuid comment (comments st) \<rparr>, comment))"

definition deleteComment :: "MemStorage \<Rightarrow> string \<Rightarrow> MemStorage \<times> bool" where
  "deleteComment st i =
     (st\<lparr> comments := AList.delete i (comments st) \<rparr>, map_of (comments st) i \<noteq> None)"

definition getCategories :: "MemStorage \<Rightarrow> Category list" where
  "getCategories st = map snd (categories st)"

definition createCategory ::
  "MemStorage \<Rightarrow> string \<Rightarrow> InsertCategory \<Rightarrow> MemStorage \<times> Category" where
  "createCategory st uuid insertCategory =
     (let cat = \<lparr> category_id = uuid,
                   name = ins_name insertCategory,
                   slug = ins_slug insertCategory,
                   description = or_null (ins_description insertCategory),
                   color = ins_color insertCategory \<rparr>
      in (st\<lparr> categories := AList.update uuid cat (categories st) \<rparr>, cat))"

definition deleteCategory :: "MemStorage \<Rightarrow> string \<Rightarrow> MemStorage \<times> bool" where
  "deleteCategory st i =
     (st\<lparr> categories := AList.delete i (categories st) \<rparr>, map_of (categories st) i \<noteq> None)"

text \<open>The article bound to an id, as it is now; \<open>None\<close> when the id is not a key.\<close>

definition stored :: "MemStorage \<Rightarrow> string \<Rightarrow> Article option" where
  "stored st i = map_option (\<lambda>r. objects st ! r) (map_of (articles st) i)"

text \<open>
  The shape every state built by the operations has: each reference in the map points
  into the heap, and no two ids share an object.
\<close>

definition well_formed :: "MemStorage \<Rightarrow> bool" where
  "well_formed st =
     (list_all (\<lambda>r. r < length (objects st)) (map snd (articles st)) \<and>
      distinct (map snd (articles st)))"

subsection \<open>Sequences of storage operations\<close>

text \<open>
  The operations of the interface that write to the article map, with their arguments;
  \<open>CreateArticle\<close> and \<open>UpdateArticle\<close> carry the values that \<open>randomUUID()\<close> and
  \<open>new Date()\<close> return during the call.
\<close>

datatype storage_op =
    CreateArticle string int InsertArticle
  | UpdateArticle int string ArticleUpdates
  | DeleteArticle string
  | IncrementViews string
  | ToggleLike string

fun apply_op :: "MemStorage \<Rightarrow> storage_op \<Rightarrow> MemStorage" where
  "apply_op st (CreateArticle uuid now ins) = fst (createArticle st uuid now ins)"
| "apply_op st (UpdateArticle now i updates) = fst (updateArticle st now i updates)"
| "apply_op st (DeleteArticle i) = fst (deleteArticle st i)"
| "apply_op st (IncrementViews i) = incrementViews st i"
| "apply_op st (ToggleLike i) = fst (toggleLike st i)"

fun run_ops :: "MemStorage \<Rightarrow> storage_op list \<Rightarrow> MemStorage" where
  "run_ops st [] = st"
| "run_ops st (x # xs) = run_ops (apply_op st x) xs"

text \<open>
  The ids that a sequence generates. \<open>randomUUID()\<close> does not repeat a value and does
  not return an id that is already a key: \<open>fresh_ids\<close>.
\<close>

fun created_ids :: "storage_op list \<Rightarrow> string list" where
  "created_ids [] = []"
| "created_ids (CreateArticle uuid now ins # xs) = uuid # created_ids xs"
| "created_ids (x # xs) = created_ids xs"

definition fresh_ids :: "MemStorage \<Rightarrow> storage_op list \<Rightarrow> bool" where
  "fresh_ids st xs =
     (distinct (created_ids xs) \<and>
      list_all (\<lambda>u. map_of (articles st) u = None) (created_ids xs))"

text \<open>A counter is a non-negative integer (and not \<open>null\<close>).\<close>

definition nonneg :: "int option \<Rightarrow> bool" where
  "nonneg v = (case v of None \<Rightarrow> False | Some n \<Rightarrow> 0 \<le> n)"

definition counters_ok :: "MemStorage \<Rightarrow> bool" where
  "counters_ok st =
     list_all (\<lambda>i. case stored st i of
                     None \<Rightarrow> True
                   | Some a \<Rightarrow> nonneg (views a) \<and> nonneg (likes a))
       (map fst (articles st))"

section \<open>DatabaseStorage (server/storage.ts)\<close>

text \<open>
  The persistent implementation sends queries to the database. Its tables are modelled
  as the lists of their rows. \<open>ilike(column, pattern)\<close> is the case-insensitive
  \<open>LIKE\<close> of SQL: in the pattern \<open>%\<close> stands for any run of characters, \<open>_\<close> for any
  one character, and a backslash makes the next character literal. An
  \<open>orderBy(desc(createdAt))\<close> is the stable sort of the rows (SQL leaves the order of
  equal keys open); a query without \<open>orderBy\<close> returns the rows in table order.
\<close>

fun like_match :: "string \<Rightarrow> string \<Rightarrow> bool" where
  "like_match [] s = (s = [])"
| "like_match (p # ps) [] = (p = CHR ''%'' \<and> like_match ps [])"
| "like_match (p # ps) (c # cs) =
     (if p = CHR ''%'' then like_match ps (c # cs) \<or> like_match (p # ps) cs
      else if p = CHR ''_'' then like_match ps cs
      else if p = CHR 0x5C
        then (case ps of [] \<Rightarrow> False | q # qs \<Rightarrow> q = c \<and> like_match qs cs)
      else p = c \<and> like_match ps cs)"

definition ilike :: "string \<Rightarrow> string \<Rightarrow> bool" where
  "ilike column pattern = like_match (toLowerCase pattern) (toLowerCase column)"

text \<open>
  \<open>DatabaseStorage.getArticles\<close>: conditions on \<open>category\<close>, \<open>query\<close> (against the
  title) and \<open>featured\<close>; \<open>params.published\<close> is not read.
\<close>

definition db_getArticles :: "Article list \<Rightarrow> SearchParams option \<Rightarrow> Article list" where
  "db_getArticles rows params =
     (let p = (case params of
                 None \<Rightarrow> \<lparr> query = None, sp_category = None, sp_tags = None,
                            sp_published = None, sp_featured = None \<rparr>
               | Some p \<Rightarrow> p);
          c1 = (if truthy (sp_category p)
                then (\<lambda>row. ilike (category row) (''%'' @ the (sp_category p) @ ''%''))
                else (\<lambda>row. True));
          c2 = (if truthy (query p)
                then (\<lambda>row. ilike (title row) (''%'' @ the (query p) @ ''%''))
                else (\<lambda>row. True));
          c3 = (if sp_featured p \<noteq> None
                then (\<lambda>row. featured row = sp_featured p)
                else (\<lambda>row. True))
      in sort_newest_first (filter (\<lambda>row. c1 row \<and> c2 row \<and> c3 row) rows))"

definition db_getCommentsByArticleId :: "Comment list \<Rightarrow> string \<Rightarrow> Comment list" where
  "db_getCommentsByArticleId rows aid = filter (\<lambda>row. articleId row = aid) rows"

section \<open>HTTP layer (server/routes.ts)\<close>

text \<open>
  A parsed query-string value (\<open>req.query[k]\<close>): a string, an array or a nested object.
\<close>

datatype qval = QStr string | QArr "qval list" | QObj "(string \<times> qval) list"

text \<open>\<open>String(v)\<close> and the truthiness of a query value.\<close>

fun join_comma :: "string list \<Rightarrow> string" where
  "join_comma [] = []"
| "join_comma [s] = s"
| "join_comma (s # t # ss) = s @ '','' @ join_comma (t # ss)"

fun String_of :: "qval \<Rightarrow> string" where
  "String_of (QStr s) = s"
| "String_of (QArr vs) = join_comma (map String_of vs)"
| "String_of (QObj kvs) = ''[object Object]''"

fun qtruthy :: "qval \<Rightarrow> bool" where
  "qtruthy (QStr s) = (s \<noteq> [])"
| "qtruthy (QArr vs) = True"
| "qtruthy (QObj kvs) = True"

type_synonym req_query = "string \<Rightarrow> qval option"

text \<open>The \<open>safeParams\<close> object built by GET /api/articles and by GET /api/search.\<close>

definition safeParams :: "req_query \<Rightarrow> SearchParams" where
  "safeParams queryParams =
     \<lparr> query = (case queryParams ''query'' of
                  None \<Rightarrow> None
                | Some v \<Rightarrow> if qtruthy v then Some (String_of v) else None),
       sp_category = (case queryParams ''category'' of
                  None \<Rightarrow> None
                | Some v \<Rightarrow> if qtruthy v then Some (String_of v) else None),
       sp_tags = None,
       sp_published = (case queryParams ''published'' of
                  None \<Rightarrow> None
                | Some v \<Rightarrow> Some (v = QStr ''true'')),
       sp_featured = (case queryParams ''featured'' of
                  None \<Rightarrow> None
                | Some v \<Rightarrow> Some (v = QStr ''true'')) \<rparr>"

text \<open>The JSON array sent by GET /api/articles (status 200).\<close>

definition get_articles_route :: "MemStorage \<Rightarrow> req_query \<Rightarrow> Article list" where
  "get_articles_route st queryParams = getArticles st (Some (safeParams queryParams))"

text \<open>GET /api/search has the same body.\<close>

definition get_search_route :: "MemStorage \<Rightarrow> req_query \<Rightarrow> Article list" where
  "get_search_route st queryParams = getArticles st (Some (safeParams queryParams))"

subsection \<open>Request bodies and schema validation\<close>

text \<open>
  A request body is a JSON value. The insert schemas are built from the tables by
  \<open>createInsertSchema\<close>: a \<open>notNull\<close> column without a default is a required
  \<open>z.string()\<close>, any other column is optional and nullable, and keys that the schema does
  not name are dropped from the parsed value. \<open>parse\<close> either returns the parsed value
  or throws a \<open>ZodError\<close> that carries one issue per offending field; the issues are
  the \<open>Inl\<close> result here.
\<close>

datatype json =
  JNull | JBool bool | JNum int | JStr string | JArr "json list" | JObj "(string \<times> json) list"

datatype seg = Key string | Idx nat

record ZodIssue =
  code :: string
  expected :: string
  received :: string
  path :: "seg list"
  message :: string

fun parsedType :: "json option \<Rightarrow> string" where
  "parsedType None = ''undefined''"
| "parsedType (Some JNull) = ''null''"
| "parsedType (Some (JBool b)) = ''boolean''"
| "parsedType (Some (JNum n)) = ''number''"
| "parsedType (Some (JStr s)) = ''string''"
| "parsedType (Some (JArr vs)) = ''array''"
| "parsedType (Some (JObj kvs)) = ''object''"

definition invalid_type :: "string \<Rightarrow> json option \<Rightarrow> seg list \<Rightarrow> ZodIssue" where
  "invalid_type ex v p =
     \<lparr> code = ''invalid_type'', expected = ex, received = parsedType v, path = p,
       message = (if v = None then ''Required''
                  else ''Expected '' @ ex @ '', received '' @ parsedType v) \<rparr>"

text \<open>\<open>z.string()\<close>, \<open>z.boolean()\<close> and \<open>z.array(z.string())\<close> on the value of a key.\<close>

fun zString :: "seg list \<Rightarrow> json option \<Rightarrow> ZodIssue list + string" where
  "zString p (Some (JStr s)) = Inr s"
| "zString p v = Inl [invalid_type ''string'' v p]"

fun zBoolean :: "seg list \<Rightarrow> json option \<Rightarrow> ZodIssue list + bool" where
  "zBoolean p (Some (JBool b)) = Inr b"
| "zBoolean p v = Inl [invalid_type ''boolean'' v p]"

fun zStrings :: "seg list \<Rightarrow> nat \<Rightarrow> json list \<Rightarrow> ZodIssue list + string list" where
  "zStrings p i [] = Inr []"
| "zStrings p i (v # vs) =
     (case (zString (p @ [Idx i]) (Some v), zStrings p (Suc i) vs) of
        (Inr s, Inr ss) \<Rightarrow> Inr (s # ss)
      | (Inl e, Inr ss) \<Rightarrow> Inl e
      | (Inr s, Inl es) \<Rightarrow> Inl es
      | (Inl e, Inl es) \<Rightarrow> Inl (e @ es))"

fun zStringArray :: "seg list \<Rightarrow> json option \<Rightarrow> ZodIssue list + string list" where
  "zStringArray p (Some (JArr vs)) = zStrings p 0 vs"
| "zStringArray p v = Inl [invalid_type ''array'' v p]"

text \<open>\<open>.optional()\<close> lets the key be absent, \<open>.nullable()\<close> lets it be \<open>null\<close>.\<close>

definition zOptional ::
  "(seg list \<Rightarrow> json option \<Rightarrow> ZodIssue list + 'a) \<Rightarrow> seg list \<Rightarrow> json option
     \<Rightarrow> ZodIssue list + 'a option" where
  "zOptional inner p v =
     (case v of None \<Rightarrow> Inr None
      | Some x \<Rightarrow> (case inner p v of Inl e \<Rightarrow> Inl e | Inr y \<Rightarrow> Inr (Some y)))"

definition zNullable ::
  "(seg list \<Rightarrow> json option \<Rightarrow> ZodIssue list + 'a) \<Rightarrow> seg list \<Rightarrow> json option
     \<Rightarrow> ZodIssue list + 'a option" where
  "zNullable inner p v =
     (case v of Some JNull \<Rightarrow> Inr None
      | _ \<Rightarrow> (case inner p v of Inl e \<Rightarrow> Inl e | Inr y \<Rightarrow> Inr (Some y)))"

definition issues :: "ZodIssue list + 'a \<Rightarrow> ZodIssue list" where
  "issues r = (case r of Inl e \<Rightarrow> e | Inr v \<Rightarrow> [])"

definition parsed :: "ZodIssue list + 'a \<Rightarrow> 'a" where
  "parsed r = (case r of Inr v \<Rightarrow> v)"

text \<open>
  \<open>insertArticleSchema.parse(body)\<close>. The keys are checked in the order of the table's
  columns and every issue is collected; \<open>f\<close> is the lookup of a key in the body.
\<close>

definition insertArticle_issues :: "(string \<Rightarrow> json option) \<Rightarrow> ZodIssue list" where
  "insertArticle_issues f =
     issues (zString [Key ''title''] (f ''title'')) @
     issues (zString [Key ''content''] (f ''content'')) @
     issues (zString [Key ''excerpt''] (f ''excerpt'')) @
     issues (zString [Key ''author''] (f ''author'')) @
     issues (zString [Key ''authorTitle''] (f ''authorTitle'')) @
     issues (zOptional (zNullable zString) [Key ''authorImage''] (f ''authorImage'')) @
     issues (zString [Key ''category''] (f ''category'')) @
     issues (zOptional (zNullable zStringArray) [Key ''tags''] (f ''tags'')) @
     issues (zOptional (zNullable zString) [Key ''imageUrl''] (f ''imageUrl'')) @
     issues (zOptional (zNullable zBoolean) [Key ''published''] (f ''published'')) @
     issues (zOptional (zNullable zBoolean) [Key ''featured''] (f ''featured''))"

definition insertArticle_value :: "(string \<Rightarrow> json option) \<Rightarrow> InsertArticle" where
  "insertArticle_value f =
     \<lparr> ins_title = parsed (zString [Key ''title''] (f ''title'')),
       ins_content = parsed (zString [Key ''content''] (f ''content'')),
       ins_excerpt = parsed (zString [Key ''excerpt''] (f ''excerpt'')),
       ins_author = parsed (zString [Key ''author''] (f ''author'')),
       ins_authorTitle = parsed (zString [Key ''authorTitle''] (f ''authorTitle'')),
       ins_authorImage =
         parsed (zOptional (zNullable zString) [Key ''authorImage''] (f ''authorImage'')),
       ins_category = parsed (zString [Key ''category''] (f ''category'')),
       ins_tags = parsed (zOptional (zNullable zStringArray) [Key ''tags''] (f ''tags'')),
       ins_imageUrl =
         parsed (zOptional (zNullable zString) [Key ''imageUrl''] (f ''imageUrl'')),
       ins_published =
         parsed (zOptional (zNullable zBoolean) [Key ''published''] (f ''published'')),
       ins_featured =
         parsed (zOptional (zNullable zBoolean) [Key ''featured''] (f ''featured'')) \<rparr>"

definition parse_insertArticle :: "json \<Rightarrow> ZodIssue list + InsertArticle" where
  "parse_insertArticle req_body =
     (case req_body of
        JObj kvs \<Rightarrow>
          if insertArticle_issues (map_of kvs) \<noteq> []
          then Inl (insertArticle_issues (map_of kvs))
          else Inr (insertArticle_value (map_of kvs))
      | _ \<Rightarrow> Inl [invalid_type ''object'' (Some req_body) []])"

text \<open>\<open>insertArticleSchema.partial().parse(body)\<close>: every key optional.\<close>

definition partialArticle_issues :: "(string \<Rightarrow> json option) \<Rightarrow> ZodIssue list" where
  "partialArticle_issues f =
     issues (zOptional zString [Key ''title''] (f ''title'')) @
     issues (zOptional zString [Key ''content''] (f ''content'')) @
     issues (zOptional zString [Key ''excerpt''] (f ''excerpt'')) @
     issues (zOptional zString [Key ''author''] (f ''author'')) @
     issues (zOptional zString [Key ''authorTitle''] (f ''authorTitle'')) @
     issues (zOptional (zNullable zString) [Key ''authorImage''] (f ''authorImage'')) @
     issues (zOptional zString [Key ''category''] (f ''category'')) @
     issues (zOptional (zNullable zStringArray) [Key ''tags''] (f ''tags'')) @
     issues (zOptional (zNullable zString) [Key ''imageUrl''] (f ''imageUrl'')) @
     issues (zOptional (zNullable zBoolean) [Key ''published''] (f ''published'')) @
     issues (zOptional (zNullable zBoolean) [Key ''featured''] (f ''featured''))"

definition partialArticle_value :: "(string \<Rightarrow> json option) \<Rightarrow> ArticleUpdates" where
  "partialArticle_value f =
     \<lparr> upd_title = parsed (zOptional zString [Key ''title''] (f ''title'')),
       upd_content = parsed (zOptional zString [Key ''content''] (f ''content'')),
       upd_excerpt = parsed (zOptional zString [Key ''excerpt''] (f ''excerpt'')),
       upd_author = parsed (zOptional zString [Key ''author''] (f ''author'')),
       upd_authorTitle = parsed (zOptional zString [Key ''authorTitle''] (f ''authorTitle'')),
       upd_authorImage =
         parsed (zOptional (zNullable zString) [Key ''authorImage''] (f ''authorImage'')),
       upd_category = parsed (zOptional zString [Key ''category''] (f ''category'')),
       upd_tags = parsed (zOptional (zNullable zStringArray) [Key ''tags''] (f ''tags'')),
       upd_imageUrl =
         parsed (zOptional (zNullable zString) [Key ''imageUrl''] (f ''imageUrl'')),
       upd_published =
         parsed (zOptional (zNullable zBoolean) [Key ''published''] (f ''published'')),
       upd_featured =
         parsed (zOptional (zNullable zBoolean) [Key ''featured''] (f ''featured'')) \<rparr>"

definition parse_partialArticle :: "json \<Rightarrow> ZodIssue list + ArticleUpdates" where
  "parse_partialArticle req_body =
     (case req_body of
        JObj kvs \<Rightarrow>
          if partialArticle_issues (map_of kvs) \<noteq> []
          then Inl (partialArticle_issues (map_of kvs))
          else Inr (partialArticle_value (map_of kvs))
      | _ \<Rightarrow> Inl [invalid_type ''object'' (Some req_body) []])"

text \<open>
  \<open>insertCommentSchema.parse({...req.body, articleId: req.params.articleId})\<close>. The
  spread of a body that is not an object contributes none of the keys the schema reads.
\<close>

definition spread_body :: "json \<Rightarrow> (string \<times> json) list" where
  "spread_body body = (case body of JObj kvs \<Rightarrow> kvs | _ \<Rightarrow> [])"

definition insertComment_issues :: "(string \<Rightarrow> json option) \<Rightarrow> ZodIssue list" where
  "insertComment_issues f =
     issues (zString [Key ''articleId''] (f ''articleId'')) @
     issues (zString [Key ''author''] (f ''author'')) @
     issues (zString [Key ''email''] (f ''email'')) @
     issues (zString [Key ''content''] (f ''content''))"

definition insertComment_value :: "(string \<Rightarrow> json option) \<Rightarrow> InsertComment" where
  "insertComment_value f =
     \<lparr> ins_articleId = parsed (zString [Key ''articleId''] (f ''articleId'')),
       ins_comment_author = parsed (zString [Key ''author''] (f ''author'')),
       ins_email = parsed (zString [Key ''email''] (f ''email'')),
       ins_comment_content = parsed (zString [Key ''content''] (f ''content'')) \<rparr>"

definition parse_insertComment :: "json \<Rightarrow> ZodIssue list + InsertComment" where
  "parse_insertComment req_body =
     (case req_body of
        JObj kvs \<Rightarrow>
          if insertComment_issues (map_of kvs) \<noteq> []
          then Inl (insertComment_issues (map_of kvs))
          else Inr (insertComment_value (map_of kvs))
      | _ \<Rightarrow> Inl [invalid_type ''object'' (Some req_body) []])"

subsection \<open>Route handlers\<close>

datatype body =
    ErrorBody string
  | ValidationBody string "ZodIssue list"
  | ArticleBody Article
  | CommentBody Comment
  | NoBody

record Response =
  status :: nat
  payload :: body

text \<open>
  GET /api/articles/:id. \<open>article\<close> is the reference that \<open>getArticle\<close> returned;
  \<open>res.json(article)\<close> runs after \<open>incrementViews\<close> and serialises the object as it is
  then.
\<close>

definition get_article_route :: "MemStorage \<Rightarrow> string \<Rightarrow> MemStorage \<times> Response" where
  "get_article_route st i =
     (case getArticle st i of
        None \<Rightarrow> (st, \<lparr> status = 404, payload = ErrorBody ''Article not found'' \<rparr>)
      | Some article \<Rightarrow>
          (let st' = incrementViews st i
           in (st', \<lparr> status = 200, payload = ArticleBody (objects st' ! article) \<rparr>)))"

text \<open>POST /api/articles.\<close>

definition post_article_route ::
  "MemStorage \<Rightarrow> string \<Rightarrow> int \<Rightarrow> json \<Rightarrow> MemStorage \<times> Response" where
  "post_article_route st uuid now req_body =
     (case parse_insertArticle req_body of
        Inl errors \<Rightarrow>
          (st, \<lparr> status = 400, payload = ValidationBody ''Invalid article data'' errors \<rparr>)
      | Inr articleData \<Rightarrow>
          (case createArticle st uuid now articleData of
             (st', article) \<Rightarrow>
               (st', \<lparr> status = 201, payload = ArticleBody (objects st' ! article) \<rparr>)))"

text \<open>PUT /api/articles/:id.\<close>

definition put_article_route ::
  "MemStorage \<Rightarrow> int \<Rightarrow> string \<Rightarrow> json \<Rightarrow> MemStorage \<times> Response" where
  "put_article_route st now i req_body =
     (case parse_partialArticle req_body of
        Inl errors \<Rightarrow>
          (st, \<lparr> status = 400, payload = ValidationBody ''Invalid article data'' errors \<rparr>)
      | Inr articleData \<Rightarrow>
          (case updateArticle st now i articleData of
             (st', None) \<Rightarrow>
               (st', \<lparr> status = 404, payload = ErrorBody ''Article not found'' \<rparr>)
           | (st', Some article) \<Rightarrow>
               (st', \<lparr> status = 200, payload = ArticleBody (objects st' ! article) \<rparr>)))"

text \<open>DELETE /api/articles/:id.\<close>

definition delete_article_route :: "MemStorage \<Rightarrow> string \<Rightarrow> MemStorage \<times> Response" where
  "delete_article_route st i =
     (case deleteArticle st i of
        (st', deleted) \<Rightarrow>
          if \<not> deleted
          then (st', \<lparr> status = 404, payload = ErrorBody ''Article not found'' \<rparr>)
          else (st', \<lparr> status = 204, payload = NoBody \<rparr>))"

text \<open>POST /api/articles/:articleId/comments.\<close>

definition post_comment_route ::
  "MemStorage \<Rightarrow> string \<Rightarrow> int \<Rightarrow> string \<Rightarrow> json \<Rightarrow> MemStorage \<times> Response" where
  "post_comment_route st uuid now aid req_body =
     (case parse_insertComment
             (JObj (AList.update ''articleId'' (JStr aid) (spread_body req_body))) of
        Inl errors \<Rightarrow>
          (st, \<lparr> status = 400, payload = ValidationBody ''Invalid comment data'' errors \<rparr>)
      | Inr commentData \<Rightarrow>
          (case createComment st uuid now commentData of
             (st', comment) \<Rightarrow> (st', \<lparr> status = 201, payload = CommentBody comment \<rparr>)))"

text \<open>What a response body and the store show of a counter.\<close>

definition body_views :: "body \<Rightarrow> int option" where
  "body_views b = (case b of ArticleBody a \<Rightarrow> views a | _ \<Rightarrow> None)"

definition stored_views :: "MemStorage \<Rightarrow> string \<Rightarrow> int option" where
  "stored_views st i = (case stored st i of None \<Rightarrow> None | Some a \<Rightarrow> views a)"

subsection \<open>The sitemap\<close>

text \<open>
  GET /sitemap.xml builds its answer by string templating. \<open>baseUrl\<close> reads the
  environment (\<open>NODE_ENV\<close>, \<open>PORT\<close>); \<open>currentDate\<close> and the function \<open>isoDate\<close> stand for
  \<open>new Date(...).toISOString().split('T')[0]\<close> of the current time and of a stored
  timestamp. The five \<open><url>\<close> blocks of the template have the same text up to their
  four values, which \<open>url_entry\<close> takes as arguments.
\<close>


definition nl :: string where
  "nl = [CHR 0x0A]"

definition baseUrl :: "string option \<Rightarrow> string option \<Rightarrow> string" where
  "baseUrl node_env port =
     (if node_env = Some ''production'' then ''https://newshub.replit.app''
      else ''http://localhost:'' @ (if truthy port then the port else ''5000''))"

definition url_entry :: "string \<Rightarrow> string \<Rightarrow> string \<Rightarrow> string \<Rightarrow> string" where
  "url_entry loc lastmod changefreq priority =
     ''  <url>'' @ nl @
     ''    <loc>'' @ loc @ ''</loc>'' @ nl @
     ''    <lastmod>'' @ lastmod @ ''</lastmod>'' @ nl @
     ''    <changefreq>'' @ changefreq @ ''</changefreq>'' @ nl @
     ''    <priority>'' @ priority @ ''</priority>'' @ nl @
     ''  </url>'' @ nl"

definition xml_declaration :: string where
  \<open>xml_declaration = ''<?xml version="1.0" encoding="UTF-8"?>''\<close>

definition sitemap_static :: "string \<Rightarrow> string \<Rightarrow> string" where
  \<open>sitemap_static base currentDate =
     xml_declaration @ nl @
     ''<urlset xmlns="http://www.sitemaps.org/schemas/sitemap/0.9">'' @ nl @
     ''  <!-- Homepage -->'' @ nl @
     url_entry (base @ ''/'') currentDate ''daily'' ''1.0'' @
     ''  '' @ nl @
     ''  <!-- Search Page -->'' @ nl @
     url_entry (base @ ''/search'') currentDate ''weekly'' ''0.6'' @
     ''  '' @ nl @
     ''  <!-- Admin Panel -->'' @ nl @
     url_entry (base @ ''/admin'') currentDate ''weekly'' ''0.4''\<close>

definition sitemap_xml :: "(int \<Rightarrow> string) \<Rightarrow> string \<Rightarrow> string \<Rightarrow> MemStorage \<Rightarrow> string" where
  "sitemap_xml isoDate base currentDate st =
     (let arts = getArticles st None;
          cats = getCategories st;
          sitemap0 = sitemap_static base currentDate;
          sitemap1 = foldl (\<lambda>sitemap cat.
                        sitemap @ url_entry (base @ ''/category/'' @ slug cat) currentDate
                                    ''daily'' ''0.8'') sitemap0 cats;
          sitemap2 = foldl (\<lambda>sitemap article.
                        sitemap @ url_entry (base @ ''/article/'' @ article_id article)
                                    (isoDate (updatedAt article)) ''weekly'' ''0.7'')
                       sitemap1 arts
      in sitemap2 @ ''</urlset>'')"

section \<open>XML documents\<close>

text \<open>
  What the sitemap is measured against: the number of \<open><url>\<close> start tags in a text,
  and XML documents as trees. A text is a well-formed document when it is the XML
  declaration followed by the rendering of a tree whose names are names, whose
  character data, attribute values and comments hold only what XML 1.0 allows there.
\<close>

fun count_tag :: "string \<Rightarrow> string \<Rightarrow> nat" where
  "count_tag t [] = 0"
| "count_tag t (c # cs) = (if prefix t (c # cs) then 1 else 0) + count_tag t cs"

text \<open>
  The characters that XML 1.0 allows in a document: tab, line feed, carriage return and
  everything from the space upwards (the strings of the model stop at code 255, so the
  upper exclusions of the standard do not arise).
\<close>

definition xml_char :: "char \<Rightarrow> bool" where
  "xml_char c = (let n = (of_char c :: nat) in n = 9 \<or> n = 10 \<or> n = 13 \<or> 32 \<le> n)"

text \<open>
  Character data: allowed characters only, neither \<open><\<close> nor \<open>&\<close>, and not the
  sequence \<open>]]>\<close>.
\<close>

definition xml_safe :: "string \<Rightarrow> bool" where
  "xml_safe s =
     (list_all (\<lambda>c. xml_char c \<and> c \<noteq> CHR ''<'' \<and> c \<noteq> CHR ''&'') s \<and>
      \<not> str_includes s '']]>'')"

text \<open>A character of the fixed path segments of the template.\<close>

definition plain_char :: "char \<Rightarrow> bool" where
  "plain_char c =
     (xml_char c \<and> c \<noteq> CHR ''<'' \<and> c \<noteq> CHR ''&'' \<and> c \<noteq> CHR '']'' \<and> c \<noteq> CHR ''>'')"

datatype xml = Element string "(string \<times> string) list" "xml list" | Text string | XmlComment string

fun render :: "xml \<Rightarrow> string" where
  "render (Text s) = s"
| "render (XmlComment s) = ''<!--'' @ s @ ''-->''"
| \<open>render (Element n attrs kids) =
     ''<'' @ n @ concat (map (\<lambda>(k, v). '' '' @ k @ ''="'' @ v @ ''"'') attrs) @ ''>'' @
     concat (map render kids) @ ''</'' @ n @ ''>''\<close>


definition xml_name :: "string \<Rightarrow> bool" where
  "xml_name n = (n \<noteq> [] \<and> list_all (\<lambda>c. c \<in> set ''abcdefghijklmnopqrstuvwxyz'') n)"

definition attr_safe :: "string \<Rightarrow> bool" where
  "attr_safe v =
     list_all (\<lambda>c. xml_char c \<and> c \<noteq> CHR ''<'' \<and> c \<noteq> CHR ''&'' \<and> c \<noteq> CHR 0x22) v"

text \<open>The text of a comment: allowed characters, no double hyphen, no hyphen at the end.\<close>

definition comment_safe :: "string \<Rightarrow> bool" where
  "comment_safe s =
     (list_all xml_char s \<and> \<not> str_includes s ''--'' \<and> \<not> suffix ''-'' s)"

fun wf_xml :: "xml \<Rightarrow> bool" where
  "wf_xml (Text s) = xml_safe s"
| "wf_xml (XmlComment s) = comment_safe s"
| "wf_xml (Element n attrs kids) =
     (xml_name n \<and> list_all (\<lambda>(k, v). xml_name k \<and> attr_safe v) attrs \<and>
      distinct (map fst attrs) \<and> list_all wf_xml kids)"

fun is_url :: "xml \<Rightarrow> bool" where
  "is_url (Element n attrs kids) = (n = ''url'')"
| "is_url x = False"

fun url_children :: "xml \<Rightarrow> xml list" where
  "url_children (Element n attrs kids) = filter is_url kids"
| "url_children x = []"

definition url_element :: "string \<Rightarrow> string \<Rightarrow> string \<Rightarrow> string \<Rightarrow> xml" where
  "url_element loc lastmod changefreq priority =
     Element ''url'' []
       [Text (nl @ ''    ''), Element ''loc'' [] [Text loc],
        Text (nl @ ''    ''), Element ''lastmod'' [] [Text lastmod],
        Text (nl @ ''    ''), Element ''changefreq'' [] [Text changefreq],
        Text (nl @ ''    ''), Element ''priority'' [] [Text priority],
        Text (nl @ ''  '')]"

definition entry_nodes :: "string \<Rightarrow> string \<Rightarrow> string \<Rightarrow> string \<Rightarrow> xml list" where
  "entry_nodes loc lastmod changefreq priority =
     [Text ''  '', url_element loc lastmod changefreq priority, Text nl]"

definition sitemap_tree :: "(int \<Rightarrow> string) \<Rightarrow> string \<Rightarrow> string \<Rightarrow> MemStorage \<Rightarrow> xml" where
  "sitemap_tree isoDate base currentDate st =
     Element ''urlset'' [(''xmlns'', ''http://www.sitemaps.org/schemas/sitemap/0.9'')]
       ([Text (nl @ ''  ''), XmlComment '' Homepage '', Text nl] @
        entry_nodes (base @ ''/'') currentDate ''daily'' ''1.0'' @
        [Text (''  '' @ nl @ ''  ''), XmlComment '' Search Page '', Text nl] @
        entry_nodes (base @ ''/search'') currentDate ''weekly'' ''0.6'' @
        [Text (''  '' @ nl @ ''  ''), XmlComment '' Admin Panel '', Text nl] @
        entry_nodes (base @ ''/admin'') currentDate ''weekly'' ''0.4'' @
        concat (map (\<lambda>cat. entry_nodes (base @ ''/category/'' @ slug cat) currentDate
                               ''daily'' ''0.8'') (getCategories st)) @
        concat (map (\<lambda>article. entry_nodes (base @ ''/article/'' @ article_id article)
                                   (isoDate (updatedAt article)) ''weekly'' ''0.7'')
                  (getArticles st None)))"

section \<open>Sample data\<close>

text \<open>A small store on which the theorems below are instantiated.\<close>

definition sample_article ::
  "string \<Rightarrow> string \<Rightarrow> bool option \<Rightarrow> bool option \<Rightarrow> int option \<Rightarrow> int \<Rightarrow> Article" where
  "sample_article i cat pub feat v t =
     \<lparr> article_id = i, title = ''Title'', content = ''Body'', excerpt = ''Lead'',
       author = ''Ann'', authorTitle = ''Reporter'', authorImage = None, category = cat,
       tags = Some [], imageUrl = None, published = pub, featured = feat, views = v,
       likes = Some 0, createdAt = t, updatedAt = t \<rparr>"

definition sample_store :: MemStorage where
  "sample_store =
     \<lparr> articles = [(''a1'', 0), (''a2'', 1), (''a3'', 2)],
       objects = [sample_article ''a1'' ''Technology'' (Some True) (Some False) (Some 0) 10,
                  sample_article ''a2'' ''TECHNOLOGY'' (Some True) (Some True) (Some 7) 20,
                  sample_article ''a3'' ''Technology'' (Some False) None (Some 3) 30],
       comments = [(''c1'', \<lparr> comment_id = ''c1'', articleId = ''a1'', comment_author = ''Bob'',
                             email = ''bob@example.org'', comment_content = ''Nice'',
                             comment_createdAt = 40 \<rparr>)],
       categories = [(''k1'', \<lparr> category_id = ''k1'', name = ''Technology'',
                               slug = ''technology'', description = None,
                               color = ''bg-blue-100 text-blue-700'' \<rparr>)] \<rparr>"

definition technology_query :: req_query where
  "technology_query = [''category'' \<mapsto> QStr ''Technology'', ''published'' \<mapsto> QStr ''true'']"

definition sample_body :: "(string \<times> json) list" where
  "sample_body =
     [(''title'', JStr ''Hello''), (''content'', JStr ''Text''), (''excerpt'', JStr ''Lead''),
      (''author'', JStr ''Ann''), (''authorTitle'', JStr ''Reporter''),
      (''category'', JStr ''Science''), (''views'', JNum 999), (''likes'', JNum 5)]"

definition sample_comment_body :: json where
  "sample_comment_body =
     JObj [(''author'', JStr ''Bob''), (''email'', JStr ''bob@example.org''),
           (''content'', JStr ''Hi'')]"

definition no_updates :: ArticleUpdates where
  "no_updates =
     \<lparr> upd_title = None, upd_content = None, upd_excerpt = None, upd_author = None,
       upd_authorTitle = None, upd_authorImage = None, upd_category = None, upd_tags = None,
       upd_imageUrl = None, upd_published = None, upd_featured = None \<rparr>"

definition published_only :: SearchParams where
  "published_only =
     \<lparr> query = None, sp_category = None, sp_tags = None, sp_published = Some True,
       sp_featured = None \<rparr>"

definition sample_insert :: InsertArticle where
  "sample_insert =
     \<lparr> ins_title = ''Hello'', ins_content = ''Text'', ins_excerpt = ''Lead'',
       ins_author = ''Ann'', ins_authorTitle = ''Reporter'', ins_authorImage = None,
       ins_category = ''Science'', ins_tags = None, ins_imageUrl = None,
       ins_published = Some (Some True), ins_featured = None \<rparr>"

definition sample_ops :: "storage_op list" where
  "sample_ops =
     [IncrementViews ''a2'', UpdateArticle 50 ''a2'' (no_updates\<lparr> upd_title := Some ''New'' \<rparr>),
      ToggleLike ''a2'', CreateArticle ''u9'' 60 sample_insert, DeleteArticle ''a1'',
      IncrementViews ''zz'', IncrementViews ''a2'']"

definition sample_date :: "int \<Rightarrow> string" where
  "sample_date t = ''2025-01-27''"

definition markup_store :: MemStorage where
  "markup_store =
     sample_store\<lparr> categories :=
       [(''k1'', \<lparr> category_id = ''k1'', name = ''Markup'', slug = ''<url>'',
                  description = None, color = ''red'' \<rparr>)] \<rparr>"

section \<open>Filtering and ordering\<close>

lemma toLowerCase_Technology: "toLowerCase ''Technology'' = ''technology''"
  by code_simp

lemma sorted_newest_first:
  "sorted_wrt (\<lambda>a b. createdAt b \<le> createdAt a) (sort_newest_first xs)"
proof -
  have "sorted (map (\<lambda>a. - createdAt a) (sort_newest_first xs))"
    by (simp add: sort_newest_first_def)
  then show ?thesis
    by (simp add: sorted_map sorted_wrt_iff_nth_less)
qed

lemma mset_sort_newest_first: "mset (sort_newest_first xs) = mset xs"
  by (simp add: sort_newest_first_def)

lemma filter_articles_category_published:
  assumes "query p = None" "sp_category p = Some c" "c \<noteq> []"
    "sp_published p = Some b" "sp_featured p = None"
  shows "filter_articles p xs =
           filter (\<lambda>a. toLowerCase (category a) = toLowerCase c \<and> published a = Some b) xs"
  using assms by (simp add: filter_articles_def truthy_def conj_commute)

lemma safeParams_technology:
  assumes "q ''category'' = Some (QStr ''Technology'')" "q ''published'' = Some (QStr ''true'')"
    "q ''query'' = None" "q ''featured'' = None"
  shows "safeParams q =
           \<lparr> query = None, sp_category = Some ''Technology'', sp_tags = None,
             sp_published = Some True, sp_featured = None \<rparr>"
  using assms by (simp add: safeParams_def)

text \<open>
  C2. A request to GET /api/articles whose only parameters are \<open>category=Technology\<close> and
  \<open>published=true\<close> is answered with exactly the stored articles whose category equals
  "Technology" up to case and whose published flag is \<open>true\<close> (each as often as it is
  stored), newest first.
\<close>

theorem technology_published_filter:
  assumes "q ''category'' = Some (QStr ''Technology'')"
    and "q ''published'' = Some (QStr ''true'')"
    and "q ''query'' = None"
    and "q ''featured'' = None"
  shows "mset (get_articles_route st q) =
           mset (filter (\<lambda>a. toLowerCase (category a) = toLowerCase ''Technology'' \<and>
                              published a = Some True) (article_values st)) \<and>
         sorted_wrt (\<lambda>a b. createdAt b \<le> createdAt a) (get_articles_route st q)"
proof -
  have "get_articles_route st q =
          sort_newest_first
            (filter (\<lambda>a. toLowerCase (category a) = toLowerCase ''Technology'' \<and>
                          published a = Some True) (article_values st))"
    unfolding get_articles_route_def getArticles_def
    by (simp add: safeParams_technology [OF assms] filter_articles_category_published)
  then show ?thesis
    by (simp add: mset_sort_newest_first sorted_newest_first)
qed

theorem technology_published_filter_witness:
  "get_articles_route sample_store technology_query =
     [sample_article ''a2'' ''TECHNOLOGY'' (Some True) (Some True) (Some 7) 20,
      sample_article ''a1'' ''Technology'' (Some True) (Some False) (Some 0) 10] \<and>
   mset (get_articles_route sample_store technology_query) =
     mset (filter (\<lambda>a. toLowerCase (category a) = toLowerCase ''Technology'' \<and>
                        published a = Some True) (article_values sample_store)) \<and>
   sorted_wrt (\<lambda>a b. createdAt b \<le> createdAt a)
     (get_articles_route sample_store technology_query)"
proof -
  have h: "technology_query ''category'' = Some (QStr ''Technology'')"
    "technology_query ''published'' = Some (QStr ''true'')"
    "technology_query ''query'' = None"
    "technology_query ''featured'' = None"
    by (simp_all add: technology_query_def)
  have "get_articles_route sample_store technology_query =
     [sample_article ''a2'' ''TECHNOLOGY'' (Some True) (Some True) (Some 7) 20,
      sample_article ''a1'' ''Technology'' (Some True) (Some False) (Some 0) 10]"
    by code_simp
  with technology_published_filter [OF h, of sample_store] show ?thesis
    by simp
qed

section \<open>Coercion of the flag parameters\<close>


lemma safeParams_published_upd:
  "safeParams (q(''published'' \<mapsto> v)) =
     (safeParams (q(''published'' := None)))\<lparr> sp_published := Some (v = QStr ''true'') \<rparr>"
  by (simp add: safeParams_def)

lemma safeParams_featured_upd:
  "safeParams (q(''featured'' \<mapsto> v)) =
     (safeParams (q(''featured'' := None)))\<lparr> sp_featured := Some (v = QStr ''true'') \<rparr>"
  by (simp add: safeParams_def)

lemma filter_articles_published_upd:
  "sp_published p = None \<Longrightarrow>
   filter_articles (p\<lparr> sp_published := Some b \<rparr>) xs =
     filter (\<lambda>a. published a = Some b) (filter_articles p xs)"
  by (auto simp add: filter_articles_def Let_def conj_commute)

lemma filter_articles_featured_upd:
  "sp_featured p = None \<Longrightarrow>
   filter_articles (p\<lparr> sp_featured := Some b \<rparr>) xs =
     filter (\<lambda>a. featured a = Some b) (filter_articles p xs)"
  by (auto simp add: filter_articles_def Let_def conj_commute)

lemma filter_sort_newest_first:
  "filter P (sort_newest_first xs) = sort_newest_first (filter P xs)"
  by (simp add: sort_newest_first_def filter_sort)

lemma getArticles_published_upd:
  "sp_published p = None \<Longrightarrow>
   getArticles st (Some (p\<lparr> sp_published := Some b \<rparr>)) =
     filter (\<lambda>a. published a = Some b) (getArticles st (Some p))"
  by (simp add: getArticles_def filter_articles_published_upd filter_sort_newest_first)

lemma getArticles_featured_upd:
  "sp_featured p = None \<Longrightarrow>
   getArticles st (Some (p\<lparr> sp_featured := Some b \<rparr>)) =
     filter (\<lambda>a. featured a = Some b) (getArticles st (Some p))"
  by (simp add: getArticles_def filter_articles_featured_upd filter_sort_newest_first)

lemma safeParams_absent:
  "sp_published (safeParams (q(''published'' := None))) = None"
  "sp_featured (safeParams (q(''featured'' := None))) = None"
  by (simp_all add: safeParams_def)

lemma filter_articles_no_params:
  "filter_articles
     \<lparr> query = None, sp_category = None, sp_tags = None, sp_published = None,
       sp_featured = None \<rparr> xs = xs"
  by (simp add: filter_articles_def truthy_def)

lemma safeParams_empty:
  "safeParams Map.empty =
     \<lparr> query = None, sp_category = None, sp_tags = None, sp_published = None,
       sp_featured = None \<rparr>"
  by (simp add: safeParams_def)

lemma getArticles_no_params:
  "getArticles st (Some (safeParams Map.empty)) = sort_newest_first (article_values st)"
  by (simp add: getArticles_def safeParams_empty filter_articles_no_params)

text \<open>
  C10. In GET /api/articles and GET /api/search a \<open>published\<close> or \<open>featured\<close>
  parameter given as any string other than "true" becomes the boolean \<open>false\<close> and is
  applied as a filter. The answer is then the stored articles that pass the other
  parameters and whose flag is exactly \<open>false\<close>, newest first; with no other parameter
  it is every stored article whose flag is exactly \<open>false\<close>. It equals the answer
  without the parameter, restricted to those articles. The parameter counts as absent
  exactly when the query string does not supply it, and a request without parameters
  is answered with every stored article.
\<close>

theorem flag_parameter_coercion:
  assumes "s \<noteq> ''true''"
  shows "sp_published (safeParams (q(''published'' \<mapsto> QStr s))) = Some False \<and>
         sp_featured (safeParams (q(''featured'' \<mapsto> QStr s))) = Some False \<and>
         get_articles_route st (q(''published'' \<mapsto> QStr s)) =
           filter (\<lambda>a. published a = Some False)
             (get_articles_route st (q(''published'' := None))) \<and>
         get_articles_route st (q(''featured'' \<mapsto> QStr s)) =
           filter (\<lambda>a. featured a = Some False)
             (get_articles_route st (q(''featured'' := None))) \<and>
         get_search_route st (q(''published'' \<mapsto> QStr s)) =
           filter (\<lambda>a. published a = Some False)
             (get_search_route st (q(''published'' := None))) \<and>
         get_search_route st (q(''featured'' \<mapsto> QStr s)) =
           filter (\<lambda>a. featured a = Some False)
             (get_search_route st (q(''featured'' := None))) \<and>
         (sp_published (safeParams q) = None) = (q ''published'' = None) \<and>
         (sp_featured (safeParams q) = None) = (q ''featured'' = None) \<and>
         get_articles_route st (q(''published'' \<mapsto> QStr s)) =
           sort_newest_first
             (filter (\<lambda>a. published a = Some False)
                (filter_articles (safeParams (q(''published'' := None))) (article_values st))) \<and>
         get_search_route st (q(''published'' \<mapsto> QStr s)) =
           sort_newest_first
             (filter (\<lambda>a. published a = Some False)
                (filter_articles (safeParams (q(''published'' := None))) (article_values st))) \<and>
         get_articles_route st (q(''featured'' \<mapsto> QStr s)) =
           sort_newest_first
             (filter (\<lambda>a. featured a = Some False)
                (filter_articles (safeParams (q(''featured'' := None))) (article_values st))) \<and>
         get_search_route st (q(''featured'' \<mapsto> QStr s)) =
           sort_newest_first
             (filter (\<lambda>a. featured a = Some False)
                (filter_articles (safeParams (q(''featured'' := None))) (article_values st))) \<and>
         get_articles_route st [''published'' \<mapsto> QStr s] =
           sort_newest_first (filter (\<lambda>a. published a = Some False) (article_values st)) \<and>
         get_search_route st [''published'' \<mapsto> QStr s] =
           sort_newest_first (filter (\<lambda>a. published a = Some False) (article_values st)) \<and>
         get_articles_route st [''featured'' \<mapsto> QStr s] =
           sort_newest_first (filter (\<lambda>a. featured a = Some False) (article_values st)) \<and>
         get_search_route st [''featured'' \<mapsto> QStr s] =
           sort_newest_first (filter (\<lambda>a. featured a = Some False) (article_values st)) \<and>
         get_articles_route st Map.empty = sort_newest_first (article_values st) \<and>
         get_search_route st Map.empty = sort_newest_first (article_values st)"
proof -
  have p: "sp_published (safeParams (q(''published'' \<mapsto> QStr s))) = Some False"
    and f: "sp_featured (safeParams (q(''featured'' \<mapsto> QStr s))) = Some False"
    using assms by (simp_all add: safeParams_def)
  have v: "(QStr s = QStr ''true'') = False"
    using assms by simp
  have rp: "getArticles st (Some (safeParams (q(''published'' \<mapsto> QStr s)))) =
           filter (\<lambda>a. published a = Some False)
             (getArticles st (Some (safeParams (q(''published'' := None)))))" for q
    by (simp only: safeParams_published_upd v getArticles_published_upd [OF safeParams_absent(1)])
  have rf: "getArticles st (Some (safeParams (q(''featured'' \<mapsto> QStr s)))) =
           filter (\<lambda>a. featured a = Some False)
             (getArticles st (Some (safeParams (q(''featured'' := None)))))" for q
    by (simp only: safeParams_featured_upd v getArticles_featured_upd [OF safeParams_absent(2)])
  have a: "(sp_published (safeParams q) = None) = (q ''published'' = None)"
    "(sp_featured (safeParams q) = None) = (q ''featured'' = None)"
    by (simp_all add: safeParams_def split: option.splits)
  have u: "getArticles st (Some p0) = sort_newest_first (filter_articles p0 (article_values st))"
    for p0
    by (simp add: getArticles_def)
  have ap: "getArticles st (Some (safeParams (q(''published'' \<mapsto> QStr s)))) =
           sort_newest_first
             (filter (\<lambda>a. published a = Some False)
                (filter_articles (safeParams (q(''published'' := None))) (article_values st)))"
    by (subst rp) (simp only: u filter_sort_newest_first)
  have af: "getArticles st (Some (safeParams (q(''featured'' \<mapsto> QStr s)))) =
           sort_newest_first
             (filter (\<lambda>a. featured a = Some False)
                (filter_articles (safeParams (q(''featured'' := None))) (article_values st)))"
    by (subst rf) (simp only: u filter_sort_newest_first)
  have e: "Map.empty(k := None) = (Map.empty :: req_query)" for k
    by simp
  have op: "getArticles st (Some (safeParams [''published'' \<mapsto> QStr s])) =
           sort_newest_first (filter (\<lambda>a. published a = Some False) (article_values st))"
    using rp [of Map.empty]
    by (simp only: e getArticles_no_params filter_sort_newest_first)
  have of: "getArticles st (Some (safeParams [''featured'' \<mapsto> QStr s])) =
           sort_newest_first (filter (\<lambda>a. featured a = Some False) (article_values st))"
    using rf [of Map.empty]
    by (simp only: e getArticles_no_params filter_sort_newest_first)
  show ?thesis
    unfolding get_articles_route_def get_search_route_def
    by (intro conjI p f rp rf a ap af op of getArticles_no_params)
qed

theorem flag_parameter_coercion_witness:
  "''false'' \<noteq> ''true'' \<and>
   sp_published (safeParams [''published'' \<mapsto> QStr ''false'']) = Some False \<and>
   get_articles_route sample_store [''published'' \<mapsto> QStr ''false''] =
     [sample_article ''a3'' ''Technology'' (Some False) None (Some 3) 30] \<and>
   get_search_route sample_store [''published'' \<mapsto> QStr ''false''] =
     [sample_article ''a3'' ''Technology'' (Some False) None (Some 3) 30] \<and>
   get_search_route sample_store [''featured'' \<mapsto> QStr ''false''] =
     [sample_article ''a1'' ''Technology'' (Some True) (Some False) (Some 0) 10] \<and>
   get_search_route sample_store Map.empty =
     [sample_article ''a3'' ''Technology'' (Some False) None (Some 3) 30,
      sample_article ''a2'' ''TECHNOLOGY'' (Some True) (Some True) (Some 7) 20,
      sample_article ''a1'' ''Technology'' (Some True) (Some False) (Some 0) 10]"
proof -
  have h: "''false'' \<noteq> ''true''" by simp
  have v: "sort_newest_first (filter (\<lambda>a. published a = Some False)
             (article_values sample_store)) =
           [sample_article ''a3'' ''Technology'' (Some False) None (Some 3) 30]"
    "sort_newest_first (filter (\<lambda>a. featured a = Some False)
             (article_values sample_store)) =
           [sample_article ''a1'' ''Technology'' (Some True) (Some False) (Some 0) 10]"
    "sort_newest_first (article_values sample_store) =
     [sample_article ''a3'' ''Technology'' (Some False) None (Some 3) 30,
      sample_article ''a2'' ''TECHNOLOGY'' (Some True) (Some True) (Some 7) 20,
      sample_article ''a1'' ''Technology'' (Some True) (Some False) (Some 0) 10]"
    by (simp_all add: sort_newest_first_def article_values_def sample_store_def
        sample_article_def)
  note t = flag_parameter_coercion [OF h, of Map.empty sample_store]
  have c: "sp_published (safeParams [''published'' \<mapsto> QStr ''false'']) = Some False"
    using t by (elim conjE)
  have r1: "get_articles_route sample_store [''published'' \<mapsto> QStr ''false''] =
      sort_newest_first (filter (\<lambda>a. published a = Some False) (article_values sample_store))"
    using t by (elim conjE)
  have r2: "get_search_route sample_store [''published'' \<mapsto> QStr ''false''] =
      sort_newest_first (filter (\<lambda>a. published a = Some False) (article_values sample_store))"
    using t by (elim conjE)
  have r3: "get_search_route sample_store [''featured'' \<mapsto> QStr ''false''] =
      sort_newest_first (filter (\<lambda>a. featured a = Some False) (article_values sample_store))"
    using t by (elim conjE)
  have r4: "get_search_route sample_store Map.empty =
      sort_newest_first (article_values sample_store)"
    using t by (elim conjE)
  show ?thesis
    unfolding r1 r2 r3 r4 v using h c by simp
qed

section \<open>The article map and its heap\<close>


lemma set_update_subset: "set (AList.update k v al) \<subseteq> insert (k, v) (set al)"
  by (induction al) auto

lemma snd_update_subset: "snd ` set (AList.update k v al) \<subseteq> insert v (snd ` set al)"
  using set_update_subset [of k v al] by force

lemma distinct_snd_update:
  "distinct (map snd al) \<Longrightarrow> v \<notin> snd ` set al \<Longrightarrow> distinct (map snd (AList.update k v al))"
proof (induction al)
  case Nil
  then show ?case by simp
next
  case (Cons p al)
  then show ?case
    using snd_update_subset [of k v al] by (cases p) (auto simp: image_iff)
qed

lemma set_delete_subset: "set (AList.delete k al) \<subseteq> set al"
  by (induction al) auto

lemma distinct_snd_delete:
  "distinct (map snd al) \<Longrightarrow> distinct (map snd (AList.delete k al))"
  by (simp add: AList.delete_eq distinct_map_filter)

lemma map_of_inj_on_distinct:
  "distinct (map snd al) \<Longrightarrow> map_of al i = Some r \<Longrightarrow> map_of al j = Some r \<Longrightarrow> i = j"
proof (induction al)
  case Nil
  then show ?case by simp
next
  case (Cons p al)
  then show ?case
    by (cases p) (auto split: if_splits dest!: map_of_SomeD simp: image_iff)
qed

lemma well_formed_ref:
  "well_formed st \<Longrightarrow> map_of (articles st) i = Some r \<Longrightarrow> r < length (objects st)"
  by (auto simp: well_formed_def list_all_iff dest!: map_of_SomeD)

lemma stored_None_iff: "stored st i = None \<longleftrightarrow> map_of (articles st) i = None"
  by (simp add: stored_def)

lemma incrementViews_absent: "stored st i = None \<Longrightarrow> incrementViews st i = st"
  by (simp add: incrementViews_def stored_def)

lemma incrementViews_articles: "articles (incrementViews st i) = articles st"
  by (simp add: incrementViews_def update_triv split: option.splits)

lemma incrementViews_length: "length (objects (incrementViews st i)) = length (objects st)"
  by (simp add: incrementViews_def split: option.splits)

lemma well_formed_incrementViews: "well_formed st \<Longrightarrow> well_formed (incrementViews st i)"
  by (simp add: well_formed_def incrementViews_articles incrementViews_length)

lemma stored_incrementViews:
  assumes "well_formed st" "stored st i = Some a"
  shows "stored (incrementViews st i) j =
           (if j = i then Some (a\<lparr> views := Some (or_zero (views a) + 1) \<rparr>) else stored st j)"
proof -
  from assms(2) obtain r where r: "map_of (articles st) i = Some r" "a = objects st ! r"
    by (auto simp: stored_def)
  have lt: "r < length (objects st)"
    using assms(1) r(1) by (rule well_formed_ref)
  have os: "objects (incrementViews st i) =
              (objects st)[r := a\<lparr> views := Some (or_zero (views a) + 1) \<rparr>]"
    using r by (simp add: incrementViews_def)
  show ?thesis
  proof (cases "j = i")
    case True
    then show ?thesis
      using r lt by (simp add: stored_def incrementViews_articles os)
  next
    case False
    have "r' \<noteq> r" if "map_of (articles st) j = Some r'" for r'
      using map_of_inj_on_distinct [of "articles st" i r j] assms(1) r(1) that False
      by (auto simp: well_formed_def)
    then show ?thesis
      using False by (cases "map_of (articles st) j")
        (simp_all add: stored_def incrementViews_articles os)
  qed
qed


lemma toggleLike_absent: "stored st i = None \<Longrightarrow> toggleLike st i = (st, None)"
  by (simp add: toggleLike_def stored_def)

lemma toggleLike_articles: "articles (fst (toggleLike st i)) = articles st"
  by (simp add: toggleLike_def update_triv split: option.splits)

lemma toggleLike_length: "length (objects (fst (toggleLike st i))) = length (objects st)"
  by (simp add: toggleLike_def split: option.splits)

lemma well_formed_toggleLike: "well_formed st \<Longrightarrow> well_formed (fst (toggleLike st i))"
  by (simp add: well_formed_def toggleLike_articles toggleLike_length)

lemma stored_toggleLike:
  assumes "well_formed st" "stored st i = Some a"
  shows "stored (fst (toggleLike st i)) j =
           (if j = i then Some (a\<lparr> likes := Some (or_zero (likes a) + 1) \<rparr>) else stored st j)"
proof -
  from assms(2) obtain r where r: "map_of (articles st) i = Some r" "a = objects st ! r"
    by (auto simp: stored_def)
  have lt: "r < length (objects st)"
    using assms(1) r(1) by (rule well_formed_ref)
  have os: "objects (fst (toggleLike st i)) =
              (objects st)[r := a\<lparr> likes := Some (or_zero (likes a) + 1) \<rparr>]"
    using r by (simp add: toggleLike_def)
  show ?thesis
  proof (cases "j = i")
    case True
    then show ?thesis
      using r lt by (simp add: stored_def toggleLike_articles os)
  next
    case False
    have "r' \<noteq> r" if "map_of (articles st) j = Some r'" for r'
      using map_of_inj_on_distinct [of "articles st" i r j] assms(1) r(1) that False
      by (auto simp: well_formed_def)
    then show ?thesis
      using False by (cases "map_of (articles st) j")
        (simp_all add: stored_def toggleLike_articles os)
  qed
qed

text \<open>Allocation: a new object appended to the heap and bound to an id.\<close>

lemma well_formed_alloc:
  assumes "well_formed st"
  shows "well_formed (st\<lparr> objects := objects st @ [a],
                          articles := AList.update i (length (objects st)) (articles st) \<rparr>)"
proof -
  have fresh: "length (objects st) \<notin> snd ` set (articles st)"
    using assms by (auto simp: well_formed_def list_all_iff)
  have "\<forall>r \<in> snd ` set (AList.update i (length (objects st)) (articles st)).
          r < Suc (length (objects st))"
    using snd_update_subset [of i "length (objects st)" "articles st"] assms
    by (auto simp: well_formed_def list_all_iff less_Suc_eq dest!: subsetD)
  moreover have "distinct (map snd (AList.update i (length (objects st)) (articles st)))"
    using assms fresh by (simp add: well_formed_def distinct_snd_update)
  ultimately show ?thesis
    by (simp add: well_formed_def list_all_iff)
qed

lemma stored_alloc:
  assumes "well_formed st"
  shows "stored (st\<lparr> objects := objects st @ [a],
                      articles := AList.update i (length (objects st)) (articles st) \<rparr>) j =
           (if j = i then Some a else stored st j)"
proof (cases "j = i")
  case True
  then show ?thesis by (simp add: stored_def update_conv')
next
  case False
  show ?thesis
  proof (cases "map_of (articles st) j")
    case None
    then show ?thesis using False by (simp add: stored_def update_conv')
  next
    case (Some r)
    then have "r < length (objects st)"
      using assms by (simp add: well_formed_ref)
    then show ?thesis
      using False Some by (simp add: stored_def update_conv' nth_append)
  qed
qed

lemma well_formed_createArticle:
  "well_formed st \<Longrightarrow> well_formed (fst (createArticle st uuid now ins))"
  by (simp add: createArticle_def Let_def well_formed_alloc)

lemma stored_createArticle:
  "well_formed st \<Longrightarrow>
   stored (fst (createArticle st uuid now ins)) j =
     (if j = uuid then Some (objects (fst (createArticle st uuid now ins))
                               ! snd (createArticle st uuid now ins))
      else stored st j)"
  by (simp add: createArticle_def Let_def stored_alloc)

lemma created_article:
  "objects (fst (createArticle st uuid now ins)) ! snd (createArticle st uuid now ins) =
     \<lparr> article_id = uuid, title = ins_title ins, content = ins_content ins,
       excerpt = ins_excerpt ins, author = ins_author ins,
       authorTitle = ins_authorTitle ins, authorImage = or_null (ins_authorImage ins),
       category = ins_category ins, tags = Some (or_empty (ins_tags ins)),
       imageUrl = or_null (ins_imageUrl ins),
       published = spread_nullable (ins_published ins),
       featured = spread_nullable (ins_featured ins),
       views = Some 0, likes = Some 0, createdAt = now, updatedAt = now \<rparr>"
  by (simp add: createArticle_def Let_def)

lemma updateArticle_absent: "stored st i = None \<Longrightarrow> updateArticle st now i u = (st, None)"
  by (simp add: updateArticle_def stored_def)

lemma well_formed_updateArticle:
  "well_formed st \<Longrightarrow> well_formed (fst (updateArticle st now i u))"
  by (simp add: updateArticle_def Let_def well_formed_alloc split: option.splits)

lemma stored_updateArticle:
  assumes "well_formed st" "stored st i = Some a"
  shows "stored (fst (updateArticle st now i u)) j =
           (if j = i then Some ((spread_updates a u)\<lparr> updatedAt := now \<rparr>) else stored st j)"
proof -
  from assms(2) obtain r where r: "map_of (articles st) i = Some r" "a = objects st ! r"
    by (auto simp: stored_def)
  show ?thesis
    using r by (simp add: updateArticle_def Let_def stored_alloc [OF assms(1)])
qed

lemma spread_updates_counters:
  "views (spread_updates a u) = views a" "likes (spread_updates a u) = likes a"
  by (simp_all add: spread_updates_def)

lemma well_formed_deleteArticle:
  "well_formed st \<Longrightarrow> well_formed (fst (deleteArticle st i))"
  using set_delete_subset [of i "articles st"]
  by (auto simp: well_formed_def deleteArticle_def list_all_iff distinct_snd_delete)

lemma stored_deleteArticle:
  "stored (fst (deleteArticle st i)) j = (if j = i then None else stored st j)"
  by (simp add: stored_def deleteArticle_def delete_conv')

lemma deleteArticle_absent: "stored st i = None \<Longrightarrow> deleteArticle st i = (st, False)"
  by (simp add: deleteArticle_def stored_def map_of_eq_None_iff)


section \<open>Fetching an article\<close>


lemma well_formed_sample_store: "well_formed sample_store"
  by (simp add: well_formed_def sample_store_def)

lemma get_article_route_absent:
  "stored st i = None \<Longrightarrow>
   get_article_route st i = (st, \<lparr> status = 404, payload = ErrorBody ''Article not found'' \<rparr>)"
  by (simp add: get_article_route_def getArticle_def stored_def)

lemma get_article_route_present:
  assumes "well_formed st" "stored st i = Some a"
  shows "get_article_route st i =
           (incrementViews st i,
            \<lparr> status = 200,
              payload = ArticleBody (a\<lparr> views := Some (or_zero (views a) + 1) \<rparr>) \<rparr>)"
proof -
  from assms(2) obtain r where r: "map_of (articles st) i = Some r"
    by (auto simp: stored_def)
  have "stored (incrementViews st i) i = Some (a\<lparr> views := Some (or_zero (views a) + 1) \<rparr>)"
    by (simp add: stored_incrementViews [OF assms])
  then have "objects (incrementViews st i) ! r = a\<lparr> views := Some (or_zero (views a) + 1) \<rparr>"
    using r by (simp add: stored_def incrementViews_articles)
  then show ?thesis
    using r by (simp add: get_article_route_def getArticle_def Let_def)
qed

lemma incrementViews_others:
  "comments (incrementViews st i) = comments st"
  "categories (incrementViews st i) = categories st"
  by (simp_all add: incrementViews_def split: option.splits)

text \<open>
  C3. GET /api/articles/:id on an id that is not in the store answers 404 and returns
  the store as it was. On an id that is in the store it answers 200, the article's
  views counter is one more than before (a counter that was \<open>null\<close> counts as 0), every
  other field of the article and every other article is as before, and so are the
  keys of the map, the comments and the categories.
\<close>

theorem get_article_route_counts_view:
  assumes "well_formed st"
  shows "(stored st i = None \<longrightarrow>
            get_article_route st i =
              (st, \<lparr> status = 404, payload = ErrorBody ''Article not found'' \<rparr>)) \<and>
         (\<forall>a. stored st i = Some a \<longrightarrow>
            status (snd (get_article_route st i)) = 200 \<and>
            stored (fst (get_article_route st i)) i =
              Some (a\<lparr> views := Some (or_zero (views a) + 1) \<rparr>) \<and>
            (\<forall>v. views a = Some v \<longrightarrow> stored_views (fst (get_article_route st i)) i = Some (v + 1)) \<and>
            (\<forall>j. j \<noteq> i \<longrightarrow> stored (fst (get_article_route st i)) j = stored st j) \<and>
            map fst (articles (fst (get_article_route st i))) = map fst (articles st) \<and>
            comments (fst (get_article_route st i)) = comments st \<and>
            categories (fst (get_article_route st i)) = categories st)"
proof (intro conjI impI allI)
  assume "stored st i = None"
  then show "get_article_route st i =
      (st, \<lparr> status = 404, payload = ErrorBody ''Article not found'' \<rparr>)"
    by (rule get_article_route_absent)
next
  fix a assume a: "stored st i = Some a"
  note r = get_article_route_present [OF assms a]
  show "status (snd (get_article_route st i)) = 200"
    by (simp add: r)
  show s: "stored (fst (get_article_route st i)) i =
      Some (a\<lparr> views := Some (or_zero (views a) + 1) \<rparr>)"
    by (simp add: r stored_incrementViews [OF assms a])
  show "stored_views (fst (get_article_route st i)) i = Some (v + 1)" if "views a = Some v" for v
    using that by (simp add: stored_views_def s or_zero_def)
  show "stored (fst (get_article_route st i)) j = stored st j" if "j \<noteq> i" for j
    using that by (simp add: r stored_incrementViews [OF assms a])
  show "map fst (articles (fst (get_article_route st i))) = map fst (articles st)"
    by (simp add: r incrementViews_articles)
  show "comments (fst (get_article_route st i)) = comments st"
    by (simp add: r incrementViews_others)
  show "categories (fst (get_article_route st i)) = categories st"
    by (simp add: r incrementViews_others)
qed

lemma stored_sample_a2:
  "stored sample_store ''a2'' =
     Some (sample_article ''a2'' ''TECHNOLOGY'' (Some True) (Some True) (Some 7) 20)"
  by (simp add: stored_def sample_store_def)

lemma stored_sample_zz: "stored sample_store ''zz'' = None"
  by (simp add: stored_def sample_store_def)

theorem get_article_route_counts_view_witness:
  "well_formed sample_store \<and>
   stored sample_store ''zz'' = None \<and>
   get_article_route sample_store ''zz'' =
     (sample_store, \<lparr> status = 404, payload = ErrorBody ''Article not found'' \<rparr>) \<and>
   stored sample_store ''a2'' =
     Some (sample_article ''a2'' ''TECHNOLOGY'' (Some True) (Some True) (Some 7) 20) \<and>
   status (snd (get_article_route sample_store ''a2'')) = 200 \<and>
   stored_views (fst (get_article_route sample_store ''a2'')) ''a2'' = Some 8 \<and>
   stored (fst (get_article_route sample_store ''a2'')) ''a1'' = stored sample_store ''a1''"
proof -
  have n: "''a1'' \<noteq> ''a2''" by simp
  have v: "views (sample_article ''a2'' ''TECHNOLOGY'' (Some True) (Some True) (Some 7) 20) = Some 7"
    by (simp add: sample_article_def)
  from get_article_route_counts_view [OF well_formed_sample_store, of "''zz''"]
    get_article_route_counts_view [OF well_formed_sample_store, of "''a2''"]
  show ?thesis
    using well_formed_sample_store stored_sample_a2 stored_sample_zz n v by auto
qed

text \<open>
  C9 as stated fails: \<open>getArticle\<close> hands out the stored object, \<open>incrementViews\<close>
  assigns to that same object, and the response is serialised afterwards. For the
  sample article with 7 views the body shows 8, the value stored after the call, not
  one less.
\<close>

theorem response_views_counterexample:
  "body_views (payload (snd (get_article_route sample_store ''a2''))) = Some 8 \<and>
   stored_views (fst (get_article_route sample_store ''a2'')) ''a2'' = Some 8 \<and>
   stored_views sample_store ''a2''= Some 7 \<and>
   body_views (payload (snd (get_article_route sample_store ''a2''))) \<noteq>
     map_option (\<lambda>v. v - 1) (stored_views (fst (get_article_route sample_store ''a2'')) ''a2'')"
  by (simp add: get_article_route_present [OF well_formed_sample_store stored_sample_a2]
      stored_views_def stored_incrementViews [OF well_formed_sample_store stored_sample_a2]
      body_views_def stored_sample_a2 or_zero_def sample_article_def)

text \<open>
  C9, amended. The article sent by GET /api/articles/:id is the stored object after the
  view increment of the same request: its views field equals the value stored after the
  call, one more than the value stored before, and the body of the next fetch of the same
  id shows one more again.
\<close>

theorem response_carries_incremented_views:
  assumes "well_formed st" and "stored st i = Some a"
  shows "payload (snd (get_article_route st i)) =
           ArticleBody (a\<lparr> views := Some (or_zero (views a) + 1) \<rparr>) \<and>
         stored (fst (get_article_route st i)) i =
           Some (a\<lparr> views := Some (or_zero (views a) + 1) \<rparr>) \<and>
         body_views (payload (snd (get_article_route st i))) =
           stored_views (fst (get_article_route st i)) i \<and>
         body_views (payload (snd (get_article_route (fst (get_article_route st i)) i))) =
           Some (or_zero (views a) + 2)"
proof -
  note r = get_article_route_present [OF assms]
  have s: "stored (incrementViews st i) i = Some (a\<lparr> views := Some (or_zero (views a) + 1) \<rparr>)"
    by (simp add: stored_incrementViews [OF assms])
  have w: "well_formed (incrementViews st i)"
    using assms(1) by (rule well_formed_incrementViews)
  note r2 = get_article_route_present [OF w s]
  show ?thesis
    by (simp add: r r2 s body_views_def stored_views_def or_zero_def)
qed

theorem response_carries_incremented_views_witness:
  "well_formed sample_store \<and>
   stored sample_store ''a2'' =
     Some (sample_article ''a2'' ''TECHNOLOGY'' (Some True) (Some True) (Some 7) 20) \<and>
   payload (snd (get_article_route sample_store ''a2'')) =
     ArticleBody (sample_article ''a2'' ''TECHNOLOGY'' (Some True) (Some True) (Some 8) 20) \<and>
   body_views (payload (snd (get_article_route sample_store ''a2''))) =
     stored_views (fst (get_article_route sample_store ''a2'')) ''a2'' \<and>
   body_views (payload (snd (get_article_route
       (fst (get_article_route sample_store ''a2'')) ''a2''))) = Some 9"
  using response_carries_incremented_views [OF well_formed_sample_store stored_sample_a2]
    well_formed_sample_store stored_sample_a2
  by (simp add: sample_article_def or_zero_def body_views_def stored_views_def)


section \<open>Updating and deleting\<close>


lemma put_article_route_absent:
  assumes "stored st i = None"
  shows "fst (put_article_route st now i b) = st"
    and "status (snd (put_article_route st now i b)) =
           (if isl (parse_partialArticle b) then 400 else 404)"
  by (cases "parse_partialArticle b";
      simp add: put_article_route_def updateArticle_absent [OF assms])+

lemma deleteArticle_result: "snd (deleteArticle st i) = (stored st i \<noteq> None)"
  by (simp add: deleteArticle_def stored_def)

lemma delete_article_route_facts:
  "fst (delete_article_route st i) = fst (deleteArticle st i)"
  "status (snd (delete_article_route st i)) = (if stored st i = None then 404 else 204)"
  by (simp_all add: delete_article_route_def deleteArticle_def stored_def)

lemma deleteComment_facts:
  "snd (deleteComment st i) = (map_of (comments st) i \<noteq> None)"
  "map_of (comments (fst (deleteComment st i))) = (map_of (comments st))(i := None)"
  "map_of (comments st) i = None \<Longrightarrow> fst (deleteComment st i) = st"
  by (simp_all add: deleteComment_def delete_conv' map_of_eq_None_iff)

lemma deleteCategory_facts:
  "snd (deleteCategory st i) = (map_of (categories st) i \<noteq> None)"
  "map_of (categories (fst (deleteCategory st i))) = (map_of (categories st))(i := None)"
  "map_of (categories st) i = None \<Longrightarrow> fst (deleteCategory st i) = st"
  by (simp_all add: deleteCategory_def delete_conv' map_of_eq_None_iff)

text \<open>
  C8 as stated fails for the route: PUT /api/articles/:id validates the body before it
  looks the id up, so an unknown id with a body that the schema rejects is answered 400,
  not 404.
\<close>

theorem put_missing_invalid_body_counterexample:
  "stored sample_store ''zz'' = None \<and>
   status (snd (put_article_route sample_store 50 ''zz'' (JObj [(''title'', JNum 5)]))) = 400"
  by (simp add: stored_sample_zz put_article_route_absent parse_partialArticle_def
      partialArticle_issues_def zOptional_def zNullable_def issues_def)

text \<open>
  C8, amended. For an id that is not in the store \<open>updateArticle\<close> returns
  \<open>undefined\<close> and the store as it was; PUT /api/articles/:id leaves the store as it was
  and answers 404 when the body passes the partial schema, 400 when it does not.
  \<open>deleteArticle\<close>, \<open>deleteComment\<close> and \<open>deleteCategory\<close> return \<open>true\<close> exactly when
  the id was a key; afterwards the id is not a key, every other key is bound as before,
  and when the id was not a key the store is as it was. DELETE /api/articles/:id answers
  204 in the first case and 404 in the second.
\<close>

theorem missing_id_update_and_delete:
  "(stored st i = None \<longrightarrow>
      updateArticle st now i u = (st, None) \<and>
      fst (put_article_route st now i b) = st \<and>
      status (snd (put_article_route st now i b)) =
        (if isl (parse_partialArticle b) then 400 else 404)) \<and>
   snd (deleteArticle st i) = (stored st i \<noteq> None) \<and>
   stored (fst (deleteArticle st i)) i = None \<and>
   (\<forall>j. j \<noteq> i \<longrightarrow> stored (fst (deleteArticle st i)) j = stored st j) \<and>
   (stored st i = None \<longrightarrow> fst (deleteArticle st i) = st) \<and>
   fst (delete_article_route st i) = fst (deleteArticle st i) \<and>
   status (snd (delete_article_route st i)) = (if stored st i = None then 404 else 204) \<and>
   snd (deleteComment st i) = (map_of (comments st) i \<noteq> None) \<and>
   map_of (comments (fst (deleteComment st i))) = (map_of (comments st))(i := None) \<and>
   (map_of (comments st) i = None \<longrightarrow> fst (deleteComment st i) = st) \<and>
   snd (deleteCategory st i) = (map_of (categories st) i \<noteq> None) \<and>
   map_of (categories (fst (deleteCategory st i))) = (map_of (categories st))(i := None) \<and>
   (map_of (categories st) i = None \<longrightarrow> fst (deleteCategory st i) = st)"
  by (simp add: updateArticle_absent put_article_route_absent deleteArticle_result
      stored_deleteArticle deleteArticle_absent deleteComment_facts deleteCategory_facts
      delete_article_route_facts)

theorem missing_id_update_and_delete_witness:
  "stored sample_store ''zz'' = None \<and>
   updateArticle sample_store 50 ''zz'' no_updates = (sample_store, None) \<and>
   status (snd (put_article_route sample_store 50 ''zz'' (JObj [(''title'', JStr ''New'')]))) = 404 \<and>
   snd (deleteArticle sample_store ''zz'') = False \<and>
   snd (deleteArticle sample_store ''a1'') = True \<and>
   stored (fst (deleteArticle sample_store ''a1'')) ''a1'' = None \<and>
   stored (fst (deleteArticle sample_store ''a1'')) ''a2'' = stored sample_store ''a2'' \<and>
   snd (deleteComment sample_store ''c1'') = True \<and>
   snd (deleteCategory sample_store ''k1'') = True \<and>
   fst (deleteCategory sample_store ''zz'') = sample_store"
proof -
  have p: "\<not> isl (parse_partialArticle (JObj [(''title'', JStr ''New'')]))"
    by (simp add: parse_partialArticle_def partialArticle_issues_def zOptional_def zNullable_def issues_def)
  have a1: "stored sample_store ''a1'' \<noteq> None"
    by (simp add: stored_def sample_store_def)
  have c: "map_of (comments sample_store) ''c1'' \<noteq> None"
    "map_of (categories sample_store) ''k1'' \<noteq> None"
    "map_of (categories sample_store) ''zz'' = None"
    by (simp_all add: sample_store_def)
  have n: "''a2'' \<noteq> ''a1''" by simp
  from missing_id_update_and_delete [of sample_store "''zz''" 50 no_updates
      "JObj [(''title'', JStr ''New'')]"]
    missing_id_update_and_delete [of sample_store "''a1''" 50 no_updates JNull]
    missing_id_update_and_delete [of sample_store "''c1''" 50 no_updates JNull]
    missing_id_update_and_delete [of sample_store "''k1''" 50 no_updates JNull]
  show ?thesis
    using stored_sample_zz p a1 c n by simp
qed

section \<open>Creating an article\<close>


lemma issues_simps: "issues (Inl e) = e" "issues (Inr v) = []"
  by (simp_all add: issues_def)

lemma required_key_cases:
  assumes "k \<in> {''title'', ''content'', ''excerpt'', ''author'', ''authorTitle'', ''category''}"
  shows "k = ''title'' \<or> k = ''content'' \<or> k = ''excerpt''
    \<or> k = ''author'' \<or> k = ''authorTitle'' \<or> k = ''category''"
  using assms by (simp only: insert_iff empty_iff simp_thms)

lemma insertArticle_issues_absent:
  "f ''title'' = None \<Longrightarrow>
     invalid_type ''string'' None [Key ''title''] \<in> set (insertArticle_issues f)"
  "f ''content'' = None \<Longrightarrow>
     invalid_type ''string'' None [Key ''content''] \<in> set (insertArticle_issues f)"
  "f ''excerpt'' = None \<Longrightarrow>
     invalid_type ''string'' None [Key ''excerpt''] \<in> set (insertArticle_issues f)"
  "f ''author'' = None \<Longrightarrow>
     invalid_type ''string'' None [Key ''author''] \<in> set (insertArticle_issues f)"
  "f ''authorTitle'' = None \<Longrightarrow>
     invalid_type ''string'' None [Key ''authorTitle''] \<in> set (insertArticle_issues f)"
  "f ''category'' = None \<Longrightarrow>
     invalid_type ''string'' None [Key ''category''] \<in> set (insertArticle_issues f)"
  by (simp_all add: insertArticle_issues_def issues_simps)

lemma insertArticle_issues_missing:
  assumes "k \<in> {''title'', ''content'', ''excerpt'', ''author'', ''authorTitle'', ''category''}"
    and "f k = None"
  shows "invalid_type ''string'' None [Key k] \<in> set (insertArticle_issues f)"
proof -
  have "f ''title'' = None" if "k = ''title''"
    using assms(2) unfolding that .
  moreover have "f ''content'' = None" if "k = ''content''"
    using assms(2) unfolding that .
  moreover have "f ''excerpt'' = None" if "k = ''excerpt''"
    using assms(2) unfolding that .
  moreover have "f ''author'' = None" if "k = ''author''"
    using assms(2) unfolding that .
  moreover have "f ''authorTitle'' = None" if "k = ''authorTitle''"
    using assms(2) unfolding that .
  moreover have "f ''category'' = None" if "k = ''category''"
    using assms(2) unfolding that .
  ultimately show ?thesis
    using required_key_cases [OF assms(1)] insertArticle_issues_absent [of f]
    by (elim disjE) simp_all
qed

lemma parse_insertArticle_missing:
  assumes "k \<in> {''title'', ''content'', ''excerpt'', ''author'', ''authorTitle'', ''category''}"
    and "map_of kvs k = None"
  shows "\<exists>es. parse_insertArticle (JObj kvs) = Inl es \<and>
              invalid_type ''string'' None [Key k] \<in> set es"
proof -
  have i: "invalid_type ''string'' None [Key k] \<in> set (insertArticle_issues (map_of kvs))"
    using assms by (rule insertArticle_issues_missing)
  then have "insertArticle_issues (map_of kvs) \<noteq> []"
    by auto
  then show ?thesis
    using i by (simp add: parse_insertArticle_def)
qed

lemma post_article_route_invalid:
  "parse_insertArticle b = Inl es \<Longrightarrow>
   post_article_route st uuid now b =
     (st, \<lparr> status = 400, payload = ValidationBody ''Invalid article data'' es \<rparr>)"
  by (simp add: post_article_route_def)

lemma post_article_route_valid:
  "parse_insertArticle b = Inr d \<Longrightarrow>
   post_article_route st uuid now b =
     (fst (createArticle st uuid now d),
      \<lparr> status = 201,
        payload = ArticleBody (objects (fst (createArticle st uuid now d))
                                 ! snd (createArticle st uuid now d)) \<rparr>)"
  by (simp add: post_article_route_def split: prod.splits)

lemma parse_insertArticle_ignores:
  "parse_insertArticle (JObj (AList.update ''views'' v kvs)) = parse_insertArticle (JObj kvs)"
  "parse_insertArticle (JObj (AList.update ''likes'' v kvs)) = parse_insertArticle (JObj kvs)"
  "parse_insertArticle (JObj (AList.update ''id'' v kvs)) = parse_insertArticle (JObj kvs)"
  by (simp_all add: parse_insertArticle_def insertArticle_issues_def insertArticle_value_def
      update_conv')

text \<open>
  C4. POST /api/articles with an object body that lacks one of the required keys
  (title, content, excerpt, author, authorTitle, category) answers 400, the details
  carry the issue "Required" with the path of that key, and the store is as it was.
  With a body that the schema accepts it answers 201 with an article whose id is the
  generated uuid and whose views and likes are 0; the article is then bound to that id.
  The keys \<open>views\<close>, \<open>likes\<close> and \<open>id\<close> of the body have no influence on the outcome.
\<close>

theorem post_article_route_validates:
  "(k \<in> {''title'', ''content'', ''excerpt'', ''author'', ''authorTitle'', ''category''} \<longrightarrow>
    map_of kvs k = None \<longrightarrow>
      fst (post_article_route st uuid now (JObj kvs)) = st \<and>
      status (snd (post_article_route st uuid now (JObj kvs))) = 400 \<and>
      (\<exists>es. payload (snd (post_article_route st uuid now (JObj kvs))) =
               ValidationBody ''Invalid article data'' es \<and>
             invalid_type ''string'' None [Key k] \<in> set es)) \<and>
   (parse_insertArticle b = Inr d \<longrightarrow>
      status (snd (post_article_route st uuid now b)) = 201 \<and>
      (\<exists>a. payload (snd (post_article_route st uuid now b)) = ArticleBody a \<and>
            article_id a = uuid \<and> views a = Some 0 \<and> likes a = Some 0 \<and>
            title a = ins_title d \<and> createdAt a = now \<and>
            (well_formed st \<longrightarrow>
               stored (fst (post_article_route st uuid now b)) uuid = Some a))) \<and>
   post_article_route st uuid now (JObj (AList.update ''views'' v kvs)) =
     post_article_route st uuid now (JObj kvs) \<and>
   post_article_route st uuid now (JObj (AList.update ''likes'' v kvs)) =
     post_article_route st uuid now (JObj kvs) \<and>
   post_article_route st uuid now (JObj (AList.update ''id'' v kvs)) =
     post_article_route st uuid now (JObj kvs)"
proof (intro conjI impI)
  assume k: "k \<in> {''title'', ''content'', ''excerpt'', ''author'', ''authorTitle'', ''category''}"
    and m: "map_of kvs k = None"
  from parse_insertArticle_missing [OF k m] obtain es
    where es: "parse_insertArticle (JObj kvs) = Inl es"
      "invalid_type ''string'' None [Key k] \<in> set es"
    by blast
  note r = post_article_route_invalid [OF es(1), of st uuid now]
  show "fst (post_article_route st uuid now (JObj kvs)) = st"
    by (simp add: r)
  show "status (snd (post_article_route st uuid now (JObj kvs))) = 400"
    by (simp add: r)
  show "\<exists>es. payload (snd (post_article_route st uuid now (JObj kvs))) =
               ValidationBody ''Invalid article data'' es \<and>
             invalid_type ''string'' None [Key k] \<in> set es"
    using es(2) by (simp add: r)
next
  assume d: "parse_insertArticle b = Inr d"
  note r = post_article_route_valid [OF d, of st uuid now]
  show "status (snd (post_article_route st uuid now b)) = 201"
    by (simp add: r)
  show "\<exists>a. payload (snd (post_article_route st uuid now b)) = ArticleBody a \<and>
            article_id a = uuid \<and> views a = Some 0 \<and> likes a = Some 0 \<and>
            title a = ins_title d \<and> createdAt a = now \<and>
            (well_formed st \<longrightarrow>
               stored (fst (post_article_route st uuid now b)) uuid = Some a)"
    by (simp add: r created_article stored_createArticle)
next
  show "post_article_route st uuid now (JObj (AList.update ''views'' v kvs)) =
     post_article_route st uuid now (JObj kvs)"
    by (simp add: post_article_route_def parse_insertArticle_ignores)
  show "post_article_route st uuid now (JObj (AList.update ''likes'' v kvs)) =
     post_article_route st uuid now (JObj kvs)"
    by (simp add: post_article_route_def parse_insertArticle_ignores)
  show "post_article_route st uuid now (JObj (AList.update ''id'' v kvs)) =
     post_article_route st uuid now (JObj kvs)"
    by (simp add: post_article_route_def parse_insertArticle_ignores)
qed

lemma parse_sample_body:
  "parse_insertArticle (JObj sample_body) =
     Inr \<lparr> ins_title = ''Hello'', ins_content = ''Text'', ins_excerpt = ''Lead'',
           ins_author = ''Ann'', ins_authorTitle = ''Reporter'', ins_authorImage = None,
           ins_category = ''Science'', ins_tags = None, ins_imageUrl = None,
           ins_published = None, ins_featured = None \<rparr>"
  by (simp add: sample_body_def parse_insertArticle_def insertArticle_issues_def
      insertArticle_value_def zOptional_def issues_simps parsed_def)

theorem post_article_route_validates_witness:
  "map_of (tl sample_body) ''title'' = None \<and>
   fst (post_article_route sample_store ''u1'' 77 (JObj (tl sample_body))) = sample_store \<and>
   status (snd (post_article_route sample_store ''u1'' 77 (JObj (tl sample_body)))) = 400 \<and>
   \<not> isl (parse_insertArticle (JObj sample_body)) \<and>
   status (snd (post_article_route sample_store ''u1'' 77 (JObj sample_body))) = 201 \<and>
   body_views (payload (snd (post_article_route sample_store ''u1'' 77 (JObj sample_body)))) =
     Some 0"
proof -
  have m: "map_of (tl sample_body) ''title'' = None"
    by (simp add: sample_body_def)
  have k: "''title'' \<in> {''title'', ''content'', ''excerpt'', ''author'', ''authorTitle'',
      ''category''}"
    by (simp only: insert_iff simp_thms)
  from post_article_route_validates [where k = "''title''" and kvs = "tl sample_body"
      and st = sample_store and uuid = "''u1''" and now = 77 and b = "JObj sample_body" and v = JNull
      and d = "\<lparr> ins_title = ''Hello'', ins_content = ''Text'', ins_excerpt = ''Lead'',
           ins_author = ''Ann'', ins_authorTitle = ''Reporter'', ins_authorImage = None,
           ins_category = ''Science'', ins_tags = None, ins_imageUrl = None,
           ins_published = None, ins_featured = None \<rparr>"]
    k m parse_sample_body
  show ?thesis
    by (auto simp: body_views_def)
qed

section \<open>Comments and their articles\<close>

text \<open>
  C6 does not hold on the code: POST /api/articles/:articleId/comments never looks the
  article up, and \<open>deleteArticle\<close> leaves the comments of the article in place. On the
  sample store a comment for the unknown article "ghost" is accepted with 201 and
  stored; after deleting article "a1" its comment "c1" is still stored.
\<close>

theorem comment_for_unknown_article_is_stored:
  "stored sample_store ''ghost'' = None \<and>
   status (snd (post_comment_route sample_store ''u1'' 77 ''ghost'' sample_comment_body)) = 201 \<and>
   map_option articleId
     (map_of (comments (fst (post_comment_route sample_store ''u1'' 77 ''ghost''
        sample_comment_body))) ''u1'') = Some ''ghost'' \<and>
   stored (fst (post_comment_route sample_store ''u1'' 77 ''ghost'' sample_comment_body))
     ''ghost'' = None \<and>
   stored (fst (deleteArticle sample_store ''a1'')) ''a1'' = None \<and>
   map_option articleId (map_of (comments (fst (deleteArticle sample_store ''a1''))) ''c1'') =
     Some ''a1''"
  by (simp add: post_comment_route_def sample_comment_body_def spread_body_def
      parse_insertComment_def insertComment_issues_def insertComment_value_def issues_simps
      parsed_def createComment_def stored_def sample_store_def deleteArticle_def Let_def)


section \<open>The two implementations of the storage interface\<close>

text \<open>
  C1 does not hold on the code. \<open>DatabaseStorage.getArticles\<close> never reads
  \<open>params.published\<close>, while \<open>MemStorage.getArticles\<close> filters on it: on the rows of the
  sample store and the parameters \<open>{published: true}\<close> the in-memory implementation
  returns the two published articles and the persistent one returns all three,
  the unpublished "a3" included.
\<close>

theorem implementations_differ_on_published:
  "getArticles sample_store (Some published_only) =
     [sample_article ''a2'' ''TECHNOLOGY'' (Some True) (Some True) (Some 7) 20,
      sample_article ''a1'' ''Technology'' (Some True) (Some False) (Some 0) 10] \<and>
   db_getArticles (article_values sample_store) (Some published_only) =
     [sample_article ''a3'' ''Technology'' (Some False) None (Some 3) 30,
      sample_article ''a2'' ''TECHNOLOGY'' (Some True) (Some True) (Some 7) 20,
      sample_article ''a1'' ''Technology'' (Some True) (Some False) (Some 0) 10]"
  by (simp add: getArticles_def db_getArticles_def published_only_def article_values_def
      sample_store_def filter_articles_def truthy_def sort_newest_first_def
      sample_article_def)

section \<open>The counters\<close>


lemma counters_ok_iff:
  "counters_ok st \<longleftrightarrow>
     (\<forall>i a. stored st i = Some a \<longrightarrow> nonneg (views a) \<and> nonneg (likes a))"
proof
  assume c: "counters_ok st"
  show "\<forall>i a. stored st i = Some a \<longrightarrow> nonneg (views a) \<and> nonneg (likes a)"
  proof (intro allI impI)
    fix i a assume s: "stored st i = Some a"
    then have "map_of (articles st) i \<noteq> None"
      by (auto simp: stored_def)
    then have "i \<in> set (map fst (articles st))"
      by (simp add: map_of_eq_None_iff)
    with c s show "nonneg (views a) \<and> nonneg (likes a)"
      by (auto simp: counters_ok_def list_all_iff)
  qed
next
  assume "\<forall>i a. stored st i = Some a \<longrightarrow> nonneg (views a) \<and> nonneg (likes a)"
  then show "counters_ok st"
    by (auto simp: counters_ok_def list_all_iff split: option.splits)
qed

lemma well_formed_apply_op: "well_formed st \<Longrightarrow> well_formed (apply_op st x)"
  by (cases x)
    (simp_all add: well_formed_createArticle well_formed_updateArticle
      well_formed_deleteArticle well_formed_incrementViews well_formed_toggleLike)

lemma toggleLike_absent_fst: "stored st i = None \<Longrightarrow> fst (toggleLike st i) = st"
  by (simp add: toggleLike_absent)

lemma updateArticle_absent_fst: "stored st i = None \<Longrightarrow> fst (updateArticle st now i u) = st"
  by (simp add: updateArticle_absent)

text \<open>One step, seen from an article that is in the store before and after.\<close>

lemma apply_op_counters:
  assumes wf: "well_formed st"
    and a: "stored st i = Some a"
    and a': "stored (apply_op st x) i = Some a'"
    and fresh: "i \<notin> set (created_ids [x])"
  shows "or_zero (views a') = or_zero (views a) + (if x = IncrementViews i then 1 else 0) \<and>
         or_zero (likes a') = or_zero (likes a) + (if x = ToggleLike i then 1 else 0)"
proof (cases x)
  case (CreateArticle uuid now ins)
  with fresh have "i \<noteq> uuid" by simp
  with a a' CreateArticle show ?thesis
    by (simp add: stored_createArticle [OF wf])
next
  case (UpdateArticle now j u)
  show ?thesis
  proof (cases "stored st j")
    case None
    with a a' UpdateArticle show ?thesis
      by (simp add: updateArticle_absent_fst)
  next
    case (Some b)
    with a a' UpdateArticle show ?thesis
      by (auto simp: stored_updateArticle [OF wf Some] spread_updates_counters
          split: if_splits)
  qed
next
  case (DeleteArticle j)
  with a a' show ?thesis
    by (auto simp: stored_deleteArticle split: if_splits)
next
  case (IncrementViews j)
  show ?thesis
  proof (cases "stored st j")
    case None
    with a a' IncrementViews show ?thesis
      by (auto simp: incrementViews_absent)
  next
    case (Some b)
    with a a' IncrementViews show ?thesis
      by (auto simp: stored_incrementViews [OF wf Some] or_zero_def split: if_splits)
  qed
next
  case (ToggleLike j)
  show ?thesis
  proof (cases "stored st j")
    case None
    with a a' ToggleLike show ?thesis
      by (auto simp: toggleLike_absent_fst)
  next
    case (Some b)
    with a a' ToggleLike show ?thesis
      by (auto simp: stored_toggleLike [OF wf Some] or_zero_def split: if_splits)
  qed
qed

text \<open>One step, seen from an id that is not a key and is not the id being created.\<close>

lemma apply_op_absent:
  assumes wf: "well_formed st"
    and n: "stored st i = None"
    and fresh: "i \<notin> set (created_ids [x])"
  shows "stored (apply_op st x) i = None"
proof (cases x)
  case (CreateArticle uuid now ins)
  with fresh have "i \<noteq> uuid" by simp
  with n CreateArticle show ?thesis
    by (simp add: stored_createArticle [OF wf])
next
  case (UpdateArticle now j u)
  show ?thesis
  proof (cases "stored st j")
    case None
    with n UpdateArticle show ?thesis
      by (simp add: updateArticle_absent_fst)
  next
    case (Some b)
    with n UpdateArticle show ?thesis
      by (auto simp: stored_updateArticle [OF wf Some])
  qed
next
  case (DeleteArticle j)
  with n show ?thesis
    by (simp add: stored_deleteArticle)
next
  case (IncrementViews j)
  show ?thesis
  proof (cases "stored st j")
    case None
    with n IncrementViews show ?thesis
      by (simp add: incrementViews_absent)
  next
    case (Some b)
    with n IncrementViews show ?thesis
      by (auto simp: stored_incrementViews [OF wf Some])
  qed
next
  case (ToggleLike j)
  show ?thesis
  proof (cases "stored st j")
    case None
    with n ToggleLike show ?thesis
      by (simp add: toggleLike_absent_fst)
  next
    case (Some b)
    with n ToggleLike show ?thesis
      by (auto simp: stored_toggleLike [OF wf Some])
  qed
qed


lemma counters_ok_apply_op:
  assumes wf: "well_formed st" and c: "counters_ok st"
  shows "counters_ok (apply_op st x)"
  unfolding counters_ok_iff
proof (intro allI impI)
  fix i a' assume a': "stored (apply_op st x) i = Some a'"
  note old = c [unfolded counters_ok_iff, rule_format]
  show "nonneg (views a') \<and> nonneg (likes a')"
  proof (cases x)
    case (CreateArticle uuid now ins)
    with a' old show ?thesis
      by (auto simp: stored_createArticle [OF wf] created_article nonneg_def
          split: if_splits)
  next
    case (UpdateArticle now j u)
    show ?thesis
    proof (cases "stored st j")
      case None
      with a' UpdateArticle old show ?thesis
        by (simp add: updateArticle_absent_fst)
    next
      case (Some b)
      with a' UpdateArticle old [of j b] old [of i a'] show ?thesis
        by (auto simp: stored_updateArticle [OF wf Some] spread_updates_counters
            split: if_splits)
    qed
  next
    case (DeleteArticle j)
    with a' old [of i a'] show ?thesis
      by (auto simp: stored_deleteArticle split: if_splits)
  next
    case (IncrementViews j)
    show ?thesis
    proof (cases "stored st j")
      case None
      with a' IncrementViews old show ?thesis
        by (simp add: incrementViews_absent)
    next
      case (Some b)
      with a' IncrementViews old [of j b] old [of i a'] show ?thesis
        by (auto simp: stored_incrementViews [OF wf Some] nonneg_def or_zero_def
            split: if_splits option.splits)
    qed
  next
    case (ToggleLike j)
    show ?thesis
    proof (cases "stored st j")
      case None
      with a' ToggleLike old show ?thesis
        by (simp add: toggleLike_absent_fst)
    next
      case (Some b)
      with a' ToggleLike old [of j b] old [of i a'] show ?thesis
        by (auto simp: stored_toggleLike [OF wf Some] nonneg_def or_zero_def
            split: if_splits option.splits)
    qed
  qed
qed

lemma created_ids_Cons: "set (created_ids (x # xs)) = set (created_ids [x]) \<union> set (created_ids xs)"
  by (cases x) simp_all

lemma distinct_created_ids_Cons:
  "distinct (created_ids (x # xs)) \<Longrightarrow>
   distinct (created_ids xs) \<and> set (created_ids [x]) \<inter> set (created_ids xs) = {}"
  by (cases x) simp_all

lemma fresh_ids_step:
  assumes wf: "well_formed st" and f: "fresh_ids st (x # xs)"
  shows "fresh_ids (apply_op st x) xs"
proof -
  from f have d: "distinct (created_ids xs)"
    and dj: "set (created_ids [x]) \<inter> set (created_ids xs) = {}"
    using distinct_created_ids_Cons [of x xs] by (simp_all add: fresh_ids_def)
  have "map_of (articles (apply_op st x)) u = None" if u: "u \<in> set (created_ids xs)" for u
  proof -
    from f u have "stored st u = None"
      by (auto simp: fresh_ids_def list_all_iff created_ids_Cons [of x xs] stored_None_iff)
    moreover from dj u have "u \<notin> set (created_ids [x])"
      by auto
    ultimately have "stored (apply_op st x) u = None"
      using wf by (simp add: apply_op_absent)
    then show ?thesis
      by (simp add: stored_None_iff)
  qed
  with d show ?thesis
    by (simp add: fresh_ids_def list_all_iff)
qed

lemma run_ops_absent:
  "well_formed st \<Longrightarrow> stored st i = None \<Longrightarrow> i \<notin> set (created_ids xs) \<Longrightarrow>
   stored (run_ops st xs) i = None"
proof (induction xs arbitrary: st)
  case Nil
  then show ?case by simp
next
  case (Cons x xs)
  from Cons.prems(3) have n: "i \<notin> set (created_ids [x])" "i \<notin> set (created_ids xs)"
    by (simp_all add: created_ids_Cons [of x xs])
  have "stored (apply_op st x) i = None"
    using Cons.prems(1,2) n(1) by (rule apply_op_absent)
  with Cons.IH [OF well_formed_apply_op [OF Cons.prems(1)] _ n(2)] show ?case
    by simp
qed

lemma well_formed_run_ops: "well_formed st \<Longrightarrow> well_formed (run_ops st xs)"
  by (induction xs arbitrary: st) (simp_all add: well_formed_apply_op)

lemma counters_ok_run_ops:
  "well_formed st \<Longrightarrow> counters_ok st \<Longrightarrow> counters_ok (run_ops st xs)"
  by (induction xs arbitrary: st) (simp_all add: well_formed_apply_op counters_ok_apply_op)

lemma run_ops_counters:
  assumes "well_formed st" "fresh_ids st xs" "stored st i = Some a"
    "stored (run_ops st xs) i = Some a'"
  shows "or_zero (views a') = or_zero (views a) + int (count_list xs (IncrementViews i)) \<and>
         or_zero (likes a') = or_zero (likes a) + int (count_list xs (ToggleLike i))"
  using assms
proof (induction xs arbitrary: st a)
  case Nil
  then show ?case by simp
next
  case (Cons x xs)
  note wf = Cons.prems(1)
  have key: "map_of (articles st) i \<noteq> None"
    using Cons.prems(3) by (auto simp: stored_def)
  have ni: "i \<notin> set (created_ids (x # xs))"
    using Cons.prems(2) key by (auto simp: fresh_ids_def list_all_iff)
  then have n: "i \<notin> set (created_ids [x])" "i \<notin> set (created_ids xs)"
    by (simp_all add: created_ids_Cons [of x xs])
  note wf' = well_formed_apply_op [OF wf, of x]
  note fr' = fresh_ids_step [OF wf Cons.prems(2)]
  show ?case
  proof (cases "stored (apply_op st x) i")
    case None
    from run_ops_absent [OF wf' None n(2)] Cons.prems(4) show ?thesis
      by simp
  next
    case (Some a1)
    from apply_op_counters [OF wf Cons.prems(3) Some n(1)]
    have s1: "or_zero (views a1) = or_zero (views a) + (if x = IncrementViews i then 1 else 0)"
      and s2: "or_zero (likes a1) = or_zero (likes a) + (if x = ToggleLike i then 1 else 0)"
      by simp_all
    from Cons.prems(4) have "stored (run_ops (apply_op st x) xs) i = Some a'"
      by simp
    from Cons.IH [OF wf' fr' Some this] s1 s2 show ?thesis
      by simp
  qed
qed

text \<open>
  C5. Start from a store in which every article's views and likes are non-negative
  integers and run any sequence of create, update, delete, incrementViews and
  toggleLike (with ids from \<open>randomUUID()\<close> that are new each time). Then every article
  in the store still has non-negative integer counters, and for every article that is
  in the store before and after, views has grown by exactly the number of
  \<open>incrementViews\<close> calls on its id and likes by exactly the number of \<open>toggleLike\<close>
  calls on its id: no other operation changes a counter, and none lowers it.
\<close>

theorem counters_change_only_by_increments:
  assumes "well_formed st" and "counters_ok st" and "fresh_ids st xs"
  shows "counters_ok (run_ops st xs) \<and>
         (\<forall>i a a'. stored st i = Some a \<longrightarrow> stored (run_ops st xs) i = Some a' \<longrightarrow>
            or_zero (views a') = or_zero (views a) + int (count_list xs (IncrementViews i)) \<and>
            or_zero (likes a') = or_zero (likes a) + int (count_list xs (ToggleLike i)) \<and>
            or_zero (views a) \<le> or_zero (views a') \<and>
            or_zero (likes a) \<le> or_zero (likes a'))"
proof (intro conjI allI impI)
  show "counters_ok (run_ops st xs)"
    using assms(1,2) by (rule counters_ok_run_ops)
next
  fix i a a'
  assume s: "stored st i = Some a" "stored (run_ops st xs) i = Some a'"
  note r = run_ops_counters [OF assms(1,3) s]
  show "or_zero (views a') = or_zero (views a) + int (count_list xs (IncrementViews i))"
    using r by simp
  show "or_zero (likes a') = or_zero (likes a) + int (count_list xs (ToggleLike i))"
    using r by simp
  show "or_zero (views a) \<le> or_zero (views a')"
    using r by simp
  show "or_zero (likes a) \<le> or_zero (likes a')"
    using r by simp
qed

lemma counters_ok_sample_store: "counters_ok sample_store"
  by (simp add: counters_ok_def sample_store_def stored_def sample_article_def nonneg_def)

lemma fresh_ids_sample_ops: "fresh_ids sample_store sample_ops"
  by (simp add: fresh_ids_def sample_ops_def sample_store_def)

theorem counters_change_only_by_increments_witness:
  "well_formed sample_store \<and> counters_ok sample_store \<and>
   fresh_ids sample_store sample_ops \<and>
   counters_ok (run_ops sample_store sample_ops) \<and>
   stored_views sample_store ''a2'' = Some 7 \<and>
   count_list sample_ops (IncrementViews ''a2'') = 2 \<and>
   stored_views (run_ops sample_store sample_ops) ''a2'' = Some 9"
proof -
  have v: "stored_views sample_store ''a2'' = Some 7"
    by (simp add: stored_views_def stored_sample_a2 sample_article_def)
  have n: "count_list sample_ops (IncrementViews ''a2'') = 2"
    by (simp add: sample_ops_def)
  have r: "stored_views (run_ops sample_store sample_ops) ''a2'' = Some 9"
    by code_simp
  from counters_change_only_by_increments
    [OF well_formed_sample_store counters_ok_sample_store fresh_ids_sample_ops]
  have "counters_ok (run_ops sample_store sample_ops)"
    by simp
  with well_formed_sample_store counters_ok_sample_store fresh_ids_sample_ops v n r
  show ?thesis
    by simp
qed


section \<open>The sitemap is well-formed for safe text\<close>


lemma foldl_append_concat: "foldl (\<lambda>s x. s @ f x) h xs = h @ concat (map f xs)"
  by (induction xs arbitrary: h) simp_all

lemma render_entry_nodes:
  "concat (map render (entry_nodes l d f p)) = url_entry l d f p"
  by (simp add: entry_nodes_def url_element_def url_entry_def)

lemma render_concat_entries:
  "concat (map render (concat (map (\<lambda>x. entry_nodes (l x) (d x) f p) xs))) =
     concat (map (\<lambda>x. url_entry (l x) (d x) f p) xs)"
  by (induction xs) (simp_all add: render_entry_nodes)

lemma sitemap_is_rendering:
  "sitemap_xml isoDate base currentDate st =
     xml_declaration @ nl @ render (sitemap_tree isoDate base currentDate st)"
  by (simp add: sitemap_xml_def Let_def foldl_append_concat sitemap_static_def
      sitemap_tree_def render_entry_nodes render_concat_entries)


text \<open>Character data that is put together from safe parts.\<close>

lemma includes_plain_prefix:
  "list_all (\<lambda>c. c \<noteq> CHR '']'') l \<Longrightarrow> str_includes (l @ b) '']]>'' = str_includes b '']]>''"
proof (induction l)
  case Nil
  then show ?case by simp
next
  case (Cons a l)
  then have "CHR '']'' \<noteq> a" by auto
  with Cons show ?case by simp
qed

lemma prefix_cdata_end_join:
  assumes "c \<noteq> CHR '']''" "c \<noteq> CHR ''>''" "prefix '']]>'' (a @ c # r)"
  shows "prefix '']]>'' a"
proof (cases a)
  case Nil
  with assms show ?thesis by simp
next
  case (Cons x a1)
  show ?thesis
  proof (cases a1)
    case Nil
    with Cons assms show ?thesis by simp
  next
    case (Cons y a2)
    note c2 = this
    show ?thesis
    proof (cases a2)
      case Nil
      with c2 \<open>a = x # a1\<close> assms show ?thesis by simp
    next
      case (Cons z a3)
      with c2 \<open>a = x # a1\<close> assms show ?thesis by auto
    qed
  qed
qed

lemma includes_join:
  assumes "c \<noteq> CHR '']''" "c \<noteq> CHR ''>''"
    and "\<not> str_includes a '']]>''" "\<not> str_includes (c # r) '']]>''"
  shows "\<not> str_includes (a @ c # r) '']]>''"
  using assms(3)
proof (induction a)
  case Nil
  with assms(4) show ?case by simp
next
  case (Cons x a)
  have "\<not> prefix '']]>'' ((x # a) @ c # r)"
    using prefix_cdata_end_join [OF assms(1,2), of "x # a" r] Cons.prems by auto
  with Cons show ?case by simp
qed

lemma xml_safe_join:
  assumes "xml_safe a" "xml_safe b" "l \<noteq> []" "list_all plain_char l"
  shows "xml_safe (a @ l @ b)"
proof -
  from assms(3) obtain c l' where l: "l = c # l'"
    by (cases l) auto
  with assms(4) have c: "c \<noteq> CHR '']''" "c \<noteq> CHR ''>''"
    by (simp_all add: plain_char_def)
  have p: "list_all (\<lambda>c. c \<noteq> CHR '']'') l"
    using assms(4) by (simp add: list_all_iff plain_char_def)
  have "\<not> str_includes (l @ b) '']]>''"
    using includes_plain_prefix [OF p, of b] assms(2) by (simp add: xml_safe_def)
  then have "\<not> str_includes (a @ c # l' @ b) '']]>''"
    using includes_join [OF c, of a "l' @ b"] assms(1) l by (simp add: xml_safe_def)
  moreover have "list_all (\<lambda>c. xml_char c \<and> c \<noteq> CHR ''<'' \<and> c \<noteq> CHR ''&'') l"
    using assms(4) by (induction l) (simp_all add: plain_char_def)
  then have "list_all (\<lambda>c. xml_char c \<and> c \<noteq> CHR ''<'' \<and> c \<noteq> CHR ''&'') (a @ l @ b)"
    using assms(1,2) by (simp add: xml_safe_def)
  ultimately show ?thesis
    using l by (simp add: xml_safe_def)
qed



lemma plain_literals:
  "list_all plain_char ''/''" "list_all plain_char ''/search''" "list_all plain_char ''/admin''"
  "list_all plain_char ''/category/''" "list_all plain_char ''/article/''"
  by code_simp+

lemma xml_safe_Nil: "xml_safe []"
  by (simp add: xml_safe_def)

lemma xml_safe_static_path:
  assumes "xml_safe a"
  shows "xml_safe (a @ ''/'')" "xml_safe (a @ ''/search'')" "xml_safe (a @ ''/admin'')"
  using xml_safe_join [OF assms xml_safe_Nil _ plain_literals(1)]
    xml_safe_join [OF assms xml_safe_Nil _ plain_literals(2)]
    xml_safe_join [OF assms xml_safe_Nil _ plain_literals(3)]
  by simp_all

lemma xml_safe_entity_path:
  assumes "xml_safe a" "xml_safe b"
  shows "xml_safe (a @ ''/category/'' @ b)" "xml_safe (a @ ''/article/'' @ b)"
  using xml_safe_join [OF assms _ plain_literals(4)] xml_safe_join [OF assms _ plain_literals(5)]
  by simp_all

lemma xml_safe_literals:
  "xml_safe ''daily''" "xml_safe ''weekly''" "xml_safe ''1.0''" "xml_safe ''0.6''"
  "xml_safe ''0.4''" "xml_safe ''0.8''" "xml_safe ''0.7''"
  "xml_safe (nl @ ''    '')" "xml_safe (nl @ ''  '')" "xml_safe ''  ''" "xml_safe nl"
  "xml_safe (''  '' @ nl @ ''  '')"
  by code_simp+

lemma xml_names: "xml_name ''url''" "xml_name ''loc''" "xml_name ''lastmod''"
  "xml_name ''changefreq''" "xml_name ''priority''" "xml_name ''urlset''" "xml_name ''xmlns''"
  by (simp_all add: xml_name_def)

lemma wf_url_element:
  "xml_safe l \<Longrightarrow> xml_safe d \<Longrightarrow> xml_safe f \<Longrightarrow> xml_safe p \<Longrightarrow> wf_xml (url_element l d f p)"
  by (simp add: url_element_def xml_names xml_safe_literals)

lemma wf_entry_nodes:
  "xml_safe l \<Longrightarrow> xml_safe d \<Longrightarrow> xml_safe f \<Longrightarrow> xml_safe p \<Longrightarrow>
   list_all wf_xml (entry_nodes l d f p)"
  by (simp add: entry_nodes_def wf_url_element xml_safe_literals)

lemma wf_concat_entries:
  "list_all (\<lambda>x. xml_safe (l x) \<and> xml_safe (d x)) xs \<Longrightarrow> xml_safe f \<Longrightarrow> xml_safe p \<Longrightarrow>
   list_all wf_xml (concat (map (\<lambda>x. entry_nodes (l x) (d x) f p) xs))"
  by (induction xs) (simp_all add: wf_entry_nodes)

lemma set_getArticles_None: "set (getArticles st None) = set (article_values st)"
  by (simp add: getArticles_def sort_newest_first_def)

lemma length_getArticles_None: "length (getArticles st None) = length (articles st)"
  by (simp add: getArticles_def sort_newest_first_def article_values_def)

lemma category_entries_safe:
  assumes "xml_safe base" "xml_safe currentDate"
    and "list_all (\<lambda>cat. xml_safe (slug cat)) (getCategories st)"
  shows "list_all (\<lambda>cat. xml_safe (base @ ''/category/'' @ slug cat) \<and> xml_safe currentDate)
           (getCategories st)"
  unfolding list_all_iff
proof (intro ballI conjI)
  fix cat assume "cat \<in> set (getCategories st)"
  with assms(3) have "xml_safe (slug cat)"
    by (simp add: list_all_iff)
  with assms(1) show "xml_safe (base @ ''/category/'' @ slug cat)"
    by (rule xml_safe_entity_path)
next
  show "xml_safe currentDate" by (rule assms(2))
qed

lemma article_entries_safe:
  assumes "xml_safe base"
    and "list_all (\<lambda>a. xml_safe (article_id a) \<and> xml_safe (isoDate (updatedAt a)))
           (article_values st)"
  shows "list_all (\<lambda>a. xml_safe (base @ ''/article/'' @ article_id a) \<and>
                        xml_safe (isoDate (updatedAt a))) (getArticles st None)"
  unfolding list_all_iff
proof (intro ballI conjI)
  fix a assume "a \<in> set (getArticles st None)"
  with assms(2) have s: "xml_safe (article_id a)" "xml_safe (isoDate (updatedAt a))"
    by (simp_all add: list_all_iff set_getArticles_None)
  from assms(1) s(1) show "xml_safe (base @ ''/article/'' @ article_id a)"
    by (rule xml_safe_entity_path)
  from s(2) show "xml_safe (isoDate (updatedAt a))" .
qed

lemma wf_sitemap_tree:
  assumes "xml_safe base" "xml_safe currentDate"
    and "list_all (\<lambda>cat. xml_safe (slug cat)) (getCategories st)"
    and "list_all (\<lambda>a. xml_safe (article_id a) \<and> xml_safe (isoDate (updatedAt a)))
           (article_values st)"
  shows "wf_xml (sitemap_tree isoDate base currentDate st)"
proof -
  note p = xml_safe_static_path [OF assms(1)]
  have s: "list_all wf_xml (entry_nodes (base @ ''/'') currentDate ''daily'' ''1.0'')"
    "list_all wf_xml (entry_nodes (base @ ''/search'') currentDate ''weekly'' ''0.6'')"
    "list_all wf_xml (entry_nodes (base @ ''/admin'') currentDate ''weekly'' ''0.4'')"
    by (rule wf_entry_nodes [OF p(1) assms(2) xml_safe_literals(1,3)]
        wf_entry_nodes [OF p(2) assms(2) xml_safe_literals(2,4)]
        wf_entry_nodes [OF p(3) assms(2) xml_safe_literals(2,5)])+
  have c: "list_all wf_xml
             (concat (map (\<lambda>cat. entry_nodes (base @ ''/category/'' @ slug cat) currentDate
                               ''daily'' ''0.8'') (getCategories st)))"
    by (rule wf_concat_entries [OF category_entries_safe [OF assms(1,2,3)]
          xml_safe_literals(1,6)])
  have a: "list_all wf_xml
             (concat (map (\<lambda>article. entry_nodes (base @ ''/article/'' @ article_id article)
                                   (isoDate (updatedAt article)) ''weekly'' ''0.7'')
                  (getArticles st None)))"
    by (rule wf_concat_entries [OF article_entries_safe [OF assms(1,4)]
          xml_safe_literals(2,7)])
  have h: "attr_safe ''http://www.sitemaps.org/schemas/sitemap/0.9''"
    "comment_safe '' Homepage ''" "comment_safe '' Search Page ''"
    "comment_safe '' Admin Panel ''"
    by code_simp+
  show ?thesis
    using s c a h xml_safe_literals(12)
    by (simp add: sitemap_tree_def xml_names xml_safe_literals)
qed

lemma url_children_entry_nodes: "filter is_url (entry_nodes l d f p) = [url_element l d f p]"
  by (simp add: entry_nodes_def url_element_def)

lemma length_url_concat_entries:
  "length (filter is_url (concat (map (\<lambda>x. entry_nodes (l x) (d x) f p) xs))) = length xs"
  by (induction xs) (simp_all add: url_children_entry_nodes)

lemma length_getCategories: "length (getCategories st) = length (categories st)"
  by (simp add: getCategories_def)

lemma length_url_children:
  "length (url_children (sitemap_tree isoDate base currentDate st)) =
     length (categories st) + length (articles st) + 3"
  by (simp add: sitemap_tree_def url_children_entry_nodes length_url_concat_entries
      length_getArticles_None length_getCategories)

text \<open>Counting the start tags in the text itself.\<close>

lemma count_tag_no_lt:
  "list_all (\<lambda>c. c \<noteq> CHR ''<'') s \<Longrightarrow> count_tag ''<url>'' (s @ r) = count_tag ''<url>'' r"
proof (induction s)
  case Nil
  then show ?case by simp
next
  case (Cons c s)
  then have "CHR ''<'' \<noteq> c" by auto
  with Cons show ?case by simp
qed

lemma count_tag_safe:
  assumes "xml_safe s"
  shows "count_tag ''<url>'' (s @ r) = count_tag ''<url>'' r"
proof -
  from assms have "list_all (\<lambda>c. c \<noteq> CHR ''<'') s"
    by (simp add: xml_safe_def list_all_iff)
  then show ?thesis by (rule count_tag_no_lt)
qed

lemma count_tag_url_entry:
  assumes "xml_safe l" "xml_safe d" "xml_safe f" "xml_safe p"
  shows "count_tag ''<url>'' (url_entry l d f p @ r) = Suc (count_tag ''<url>'' r)"
  using assms by (simp add: url_entry_def nl_def count_tag_safe)

lemma count_tag_entries:
  "list_all (\<lambda>x. xml_safe (l x) \<and> xml_safe (d x)) xs \<Longrightarrow> xml_safe f \<Longrightarrow> xml_safe p \<Longrightarrow>
   count_tag ''<url>'' (concat (map (\<lambda>x. url_entry (l x) (d x) f p) xs) @ r) =
     length xs + count_tag ''<url>'' r"
  by (induction xs) (simp_all add: count_tag_url_entry)


lemma count_tag_static:
  assumes "xml_safe base" "xml_safe currentDate"
  shows "count_tag ''<url>'' (sitemap_static base currentDate @ r) = 3 + count_tag ''<url>'' r"
  using xml_safe_static_path [OF assms(1)] assms(2)
  by (simp add: sitemap_static_def xml_declaration_def nl_def count_tag_url_entry
      xml_safe_literals)

lemma count_tag_sitemap:
  assumes "xml_safe base" "xml_safe currentDate"
    and "list_all (\<lambda>cat. xml_safe (slug cat)) (getCategories st)"
    and "list_all (\<lambda>a. xml_safe (article_id a) \<and> xml_safe (isoDate (updatedAt a)))
           (article_values st)"
  shows "count_tag ''<url>'' (sitemap_xml isoDate base currentDate st) =
           length (categories st) + length (articles st) + 3"
proof -
  let ?cs = "concat (map (\<lambda>cat. url_entry (base @ ''/category/'' @ slug cat) currentDate
                               ''daily'' ''0.8'') (getCategories st))"
  let ?as = "concat (map (\<lambda>article. url_entry (base @ ''/article/'' @ article_id article)
                                   (isoDate (updatedAt article)) ''weekly'' ''0.7'')
                  (getArticles st None))"
  have e: "sitemap_xml isoDate base currentDate st =
             sitemap_static base currentDate @ (?cs @ (?as @ ''</urlset>''))"
    by (simp add: sitemap_xml_def Let_def foldl_append_concat)
  have c: "count_tag ''<url>'' (?cs @ r) = length (getCategories st) + count_tag ''<url>'' r"
    for r
    by (rule count_tag_entries [OF category_entries_safe [OF assms(1,2,3)]
          xml_safe_literals(1,6)])
  have a: "count_tag ''<url>'' (?as @ r) =
             length (getArticles st None) + count_tag ''<url>'' r" for r
    by (rule count_tag_entries [OF article_entries_safe [OF assms(1,4)]
          xml_safe_literals(2,7)])
  have z: "count_tag ''<url>'' ''</urlset>'' = 0"
    by simp
  show ?thesis
    unfolding e count_tag_static [OF assms(1,2)] c a z
    by (simp add: length_getArticles_None length_getCategories)
qed

text \<open>
  C7, amended. When the base URL, the date strings, the category slugs and the article
  ids are XML character data (only characters that XML 1.0 allows, neither \<open><\<close> nor
  \<open>&\<close>, and not the sequence \<open>]]>\<close>), the text sent by GET /sitemap.xml is the XML
  declaration followed by the rendering of a well-formed tree whose root \<open>urlset\<close> has
  exactly C + A + 3 \<open>url\<close> children, C and A being the numbers of categories and of
  articles in the store; and the text holds exactly C + A + 3 \<open><url>\<close> start tags.
\<close>

theorem sitemap_well_formed_for_safe_text:
  assumes "xml_safe base" and "xml_safe currentDate"
    and "list_all (\<lambda>cat. xml_safe (slug cat)) (getCategories st)"
    and "list_all (\<lambda>a. xml_safe (article_id a) \<and> xml_safe (isoDate (updatedAt a)))
           (article_values st)"
  shows "sitemap_xml isoDate base currentDate st =
           xml_declaration @ nl @ render (sitemap_tree isoDate base currentDate st) \<and>
         wf_xml (sitemap_tree isoDate base currentDate st) \<and>
         length (url_children (sitemap_tree isoDate base currentDate st)) =
           length (categories st) + length (articles st) + 3 \<and>
         count_tag ''<url>'' (sitemap_xml isoDate base currentDate st) =
           length (categories st) + length (articles st) + 3"
  using sitemap_is_rendering [of isoDate base currentDate st] wf_sitemap_tree [OF assms]
    length_url_children [of isoDate base currentDate st] count_tag_sitemap [OF assms]
  by simp

text \<open>
  C7 as stated fails: slugs are copied into the text as they are, and
  POST /api/categories accepts any string as a slug. With the one category whose slug is
  \<open><url>\<close> and three articles the text holds eight \<open><url>\<close> start tags, not seven (and
  the extra one is never closed).
\<close>

theorem sitemap_markup_slug_counterexample:
  "count_tag ''<url>'' (sitemap_xml sample_date (baseUrl None None) ''2025-01-28'' markup_store)
     = 8 \<and>
   length (categories markup_store) + length (articles markup_store) + 3 = 7"
  by code_simp

text \<open>
  A control character, a markup character and the end marker of a CDATA section are
  not character data; a lone \<open>>\<close> is.
\<close>

lemma xml_safe_examples:
  "\<not> xml_safe [CHR 0x01]" "\<not> xml_safe ''a<b''" "\<not> xml_safe ''a&b''"
  "\<not> xml_safe ''a]]>b''" "xml_safe ''a>b''"
  by code_simp+

lemma sample_safe:
  "xml_safe (baseUrl None None)" "xml_safe ''2025-01-28''"
  "list_all (\<lambda>cat. xml_safe (slug cat)) (getCategories sample_store)"
  "list_all (\<lambda>a. xml_safe (article_id a) \<and> xml_safe (sample_date (updatedAt a)))
     (article_values sample_store)"
  by code_simp+

theorem sitemap_well_formed_for_safe_text_witness:
  "xml_safe (baseUrl None None) \<and> xml_safe ''2025-01-28'' \<and>
   list_all (\<lambda>cat. xml_safe (slug cat)) (getCategories sample_store) \<and>
   list_all (\<lambda>a. xml_safe (article_id a) \<and> xml_safe (sample_date (updatedAt a)))
     (article_values sample_store) \<and>
   wf_xml (sitemap_tree sample_date (baseUrl None None) ''2025-01-28'' sample_store) \<and>
   count_tag ''<url>'' (sitemap_xml sample_date (baseUrl None None) ''2025-01-28'' sample_store)
     = 7"
proof -
  have n: "length (categories sample_store) + length (articles sample_store) + 3 = 7"
    by (simp add: sample_store_def)
  note t = sitemap_well_formed_for_safe_text [OF sample_safe]
  have w: "wf_xml (sitemap_tree sample_date (baseUrl None None) ''2025-01-28'' sample_store)"
    using t by (elim conjE)
  have c: "count_tag ''<url>''
             (sitemap_xml sample_date (baseUrl None None) ''2025-01-28'' sample_store) =
           length (categories sample_store) + length (articles sample_store) + 3"
    using t by (elim conjE)
  show ?thesis
    using w c n sample_safe by simp
qed



end
